theory Spec2Isabelle
  imports Complex_Main "HOL-Library.AList" "HOL-Library.Monad_Syntax"
    "HOL-Library.Char_ord" "HOL-Library.List_Lexorder" "HOL-Library.Log_Nat"
begin

section \<open>Filter model (\<^verbatim>\<open>src/filters.py\<close>)\<close>

text \<open>
  A Python \<^verbatim>\<open>Dict[str, List[str]]\<close> is an association list in insertion order whose keys
  are pairwise different; \<^verbatim>\<open>d[key] = values\<close> is \<open>AList.update\<close>, which overwrites
  the entry of an existing key in place and appends a new key at the end.
\<close>

type_synonym filters = "(string \<times> string list) list"

text \<open>
  \<^verbatim>\<open>FilterManager.apply_filters\<close>: the loop over \<^verbatim>\<open>selected_filters.items()\<close> that copies
  the entries with a truthy (non-empty) value list into \<^verbatim>\<open>validated_filters\<close>.
\<close>

definition apply_filters :: "filters \<Rightarrow> filters" where
  "apply_filters selected_filters =
     foldl (\<lambda>validated_filters (key, values).
              if values \<noteq> [] then AList.update key values validated_filters
              else validated_filters)
       [] selected_filters"

section \<open>The stored table (\<^verbatim>\<open>src/database.py\<close>, \<^verbatim>\<open>_create_schema\<close>)\<close>

text \<open>
  One row of \<^verbatim>\<open>vehicle_data\<close>, field by field in the order of the \<^verbatim>\<open>CREATE TABLE\<close>
  statement. No column is declared \<^verbatim>\<open>NOT NULL\<close>, so every field is optional (\<open>None\<close> is
  SQL \<^verbatim>\<open>NULL\<close>). \<^verbatim>\<open>VARCHAR\<close> is \<open>string\<close>, \<^verbatim>\<open>INTEGER\<close> is \<open>int\<close>, and a
  \<^verbatim>\<open>DECIMAL(w,2)\<close> value is the rational number it denotes. The table is the list of its
  rows in insertion order, which is also the order in which a scan without
  \<^verbatim>\<open>ORDER BY\<close> is taken to return them.
\<close>

record vehicle =
  brand :: "string option"
  model :: "string option"
  top_speed_kmh :: "rat option"
  battery_capacity_kWh :: "rat option"
  battery_type :: "string option"
  number_of_cells :: "int option"
  torque_nm :: "rat option"
  efficiency_wh_per_km :: "rat option"
  range_km :: "rat option"
  acceleration_0_100_s :: "rat option"
  fast_charging_power_kw_dc :: "rat option"
  fast_charge_port :: "string option"
  towing_capacity_kg :: "rat option"
  cargo_volume_l :: "rat option"
  seats :: "int option"
  drivetrain :: "string option"
  segment :: "string option"
  length_mm :: "rat option"
  width_mm :: "rat option"
  height_mm :: "rat option"
  car_body_type :: "string option"
  source_url :: "string option"

type_synonym table = "vehicle list"

text \<open>
  What a call can raise. \<open>KeyError\<close> is pandas', the next three are the engine's
  exceptions. \<open>NotModelled\<close> is not an exception of the program: it marks a statement text
  outside the fragment of SQL that is interpreted below, and no result is drawn from it.
\<close>

datatype error = KeyError | BinderError | ConversionError | ParserError | NotModelled

definition get_record_count :: "table \<Rightarrow> nat" where
  "get_record_count tbl = length tbl"

definition clear_all_data :: "table \<Rightarrow> table" where
  "clear_all_data tbl = []"

section \<open>Filtered query (\<^verbatim>\<open>query_with_filters\<close>)\<close>

subsection \<open>The statement text\<close>

definition quote :: char where
  "quote = CHR 0x27"

text \<open>Python's \<^verbatim>\<open>sep.join(parts)\<close>.\<close>

fun join :: "string \<Rightarrow> string list \<Rightarrow> string" where
  "join sep [] = []"
| "join sep [s] = s"
| "join sep (s # t # ss) = s @ sep @ join sep (t # ss)"

text \<open>
  The text \<^verbatim>\<open>query_with_filters\<close> builds: the fixed head, then for every entry with a
  non-empty list \<^verbatim>\<open>f" AND {column} IN ({placeholders})"\<close>, where the placeholders are
  the values, each between two single quotes and otherwise unchanged, joined by commas.
\<close>

definition build_query :: "filters \<Rightarrow> string" where
  "build_query filters =
     foldl (\<lambda>query (column, values).
              if values \<noteq> [] then
                query @ '' AND '' @ column @ '' IN (''
                  @ join '','' (map (\<lambda>v. quote # v @ [quote]) values) @ '')''
              else query)
       ''SELECT * FROM vehicle_data WHERE 1=1'' filters"

subsection \<open>The engine on that text\<close>

text \<open>
  \<^verbatim>\<open>self.conn.execute(query).df()\<close> hands the text to the SQL engine. The engine is
  interpreted on the statements of the shape above: the text is cut into tokens the way
  SQL does it (a string literal runs from a single quote to the next single quote that is
  not doubled, a doubled quote inside it standing for one quote character; a literal still
  open at the end of the text is a lexical error), and the token list is read as
  \<^verbatim>\<open>SELECT * FROM vehicle_data WHERE 1=1\<close> followed by clauses
  \<^verbatim>\<open>AND column IN ('v', ...)\<close>. A \<open>Word\<close> is an identifier, a keyword or an unsigned
  integer.
\<close>

datatype token = Word string | Literal string | Symbol char

datatype scan = Between | InWord string | InLiteral string | AfterQuote string

definition word_char :: "char \<Rightarrow> bool" where
  "word_char c \<longleftrightarrow>
     (CHR ''a'' \<le> c \<and> c \<le> CHR ''z'') \<or> (CHR ''A'' \<le> c \<and> c \<le> CHR ''Z'')
     \<or> (CHR ''0'' \<le> c \<and> c \<le> CHR ''9'') \<or> c = CHR ''_''"

definition blank :: "char \<Rightarrow> bool" where
  "blank c \<longleftrightarrow> c = CHR '' '' \<or> c = CHR 0x09 \<or> c = CHR 0x0A \<or> c = CHR 0x0D"

definition start :: "char \<Rightarrow> token list \<times> scan" where
  "start c =
     (if c = quote then ([], InLiteral [])
      else if blank c then ([], Between)
      else if word_char c then ([], InWord [c])
      else ([Symbol c], Between))"

fun step :: "scan \<Rightarrow> char \<Rightarrow> token list \<times> scan" where
  "step Between c = start c"
| "step (InWord w) c =
     (if word_char c then ([], InWord (w @ [c]))
      else (Word w # fst (start c), snd (start c)))"
| "step (InLiteral s) c =
     (if c = quote then ([], AfterQuote s) else ([], InLiteral (s @ [c])))"
| "step (AfterQuote s) c =
     (if c = quote then ([], InLiteral (s @ [quote]))
      else (Literal s # fst (start c), snd (start c)))"

fun finish :: "scan \<Rightarrow> token list option" where
  "finish Between = Some []"
| "finish (InWord w) = Some [Word w]"
| "finish (InLiteral s) = None"
| "finish (AfterQuote s) = Some [Literal s]"

fun tokens :: "scan \<Rightarrow> string \<Rightarrow> token list option" where
  "tokens st [] = finish st"
| "tokens st (c # cs) = map_option ((@) (fst (step st c))) (tokens (snd (step st c)) cs)"

datatype expect =
  ExpAnd | ExpColumn | ExpIn string | ExpOpen string
  | ExpLiteral string "string list" | ExpSep string "string list"

fun clauses :: "expect \<Rightarrow> token list \<Rightarrow> filters option" where
  "clauses ExpAnd [] = Some []"
| "clauses ExpAnd (t # ts) = (if t = Word ''AND'' then clauses ExpColumn ts else None)"
| "clauses ExpColumn (Word column # ts) = clauses (ExpIn column) ts"
| "clauses (ExpIn column) (t # ts) =
     (if t = Word ''IN'' then clauses (ExpOpen column) ts else None)"
| "clauses (ExpOpen column) (t # ts) =
     (if t = Symbol (CHR ''('') then clauses (ExpLiteral column []) ts else None)"
| "clauses (ExpLiteral column vs) (Literal v # ts) = clauses (ExpSep column (vs @ [v])) ts"
| "clauses (ExpSep column vs) (t # ts) =
     (if t = Symbol (CHR '','') then clauses (ExpLiteral column vs) ts
      else if t = Symbol (CHR '')'') then map_option ((#) (column, vs)) (clauses ExpAnd ts)
      else None)"
| "clauses _ _ = None"

definition select_head :: "token list" where
  "select_head =
     [Word ''SELECT'', Symbol (CHR ''*''), Word ''FROM'', Word ''vehicle_data'',
      Word ''WHERE'', Word ''1'', Symbol (CHR ''=''), Word ''1'']"

definition parse_select :: "token list \<Rightarrow> filters option" where
  "parse_select ts =
     (if take 8 ts = select_head then clauses ExpAnd (drop 8 ts) else None)"

text \<open>The \<^verbatim>\<open>VARCHAR\<close> columns by name.\<close>

definition text_column :: "string \<Rightarrow> (vehicle \<Rightarrow> string option) option" where
  "text_column column =
     (if column = ''brand'' then Some brand
      else if column = ''model'' then Some model
      else if column = ''battery_type'' then Some battery_type
      else if column = ''fast_charge_port'' then Some fast_charge_port
      else if column = ''drivetrain'' then Some drivetrain
      else if column = ''segment'' then Some segment
      else if column = ''car_body_type'' then Some car_body_type
      else if column = ''source_url'' then Some source_url
      else None)"

text \<open>
  \<^verbatim>\<open>column IN ('v', ...)\<close> on a \<^verbatim>\<open>VARCHAR\<close> column holds of a row when the row's value
  is not \<^verbatim>\<open>NULL\<close> and equals one of the literals. A clause on another name (a numeric
  column, where the engine converts the literals, or no column at all) is left
  uninterpreted.
\<close>

definition in_list :: "(vehicle \<Rightarrow> string option) \<Rightarrow> string list \<Rightarrow> vehicle \<Rightarrow> bool" where
  "in_list column vs row = (case column row of None \<Rightarrow> False | Some s \<Rightarrow> s \<in> set vs)"

fun where_clause :: "filters \<Rightarrow> (vehicle \<Rightarrow> bool) option" where
  "where_clause [] = Some (\<lambda>row. True)"
| "where_clause ((column, vs) # rest) =
     (case text_column column of
        None \<Rightarrow> None
      | Some get \<Rightarrow>
          (case where_clause rest of
             None \<Rightarrow> None
           | Some p \<Rightarrow> Some (\<lambda>row. in_list get vs row \<and> p row)))"

definition execute_select :: "string \<Rightarrow> table \<Rightarrow> error + vehicle list" where
  "execute_select query tbl =
     (case tokens Between query of
        None \<Rightarrow> Inl ParserError
      | Some ts \<Rightarrow>
          (case parse_select ts of
             None \<Rightarrow> Inl NotModelled
           | Some cs \<Rightarrow>
               (case where_clause cs of
                  None \<Rightarrow> Inl NotModelled
                | Some p \<Rightarrow> Inr (filter p tbl))))"

definition query_with_filters :: "table \<Rightarrow> filters \<Rightarrow> error + vehicle list" where
  "query_with_filters tbl filters = execute_select (build_query filters) tbl"

subsection \<open>The text and the tokens of one clause\<close>

text \<open>
  The pieces of the statement text, named for the proofs: a value between quotes, the
  text added for one entry, and the tokens that text stands for when no value contains a
  quote. An entry is \<open>well_formed\<close> when its key names a \<^verbatim>\<open>VARCHAR\<close> column and none of
  its values contains a single quote; \<open>text_value\<close> reads a \<^verbatim>\<open>VARCHAR\<close> column by name.
\<close>

definition quoted :: "string \<Rightarrow> string" where
  "quoted v = quote # v @ [quote]"

definition clause_text :: "string \<times> string list \<Rightarrow> string" where
  "clause_text entry =
     '' AND '' @ fst entry @ '' IN ('' @ join '','' (map quoted (snd entry)) @ '')''"

fun literal_tokens :: "string list \<Rightarrow> token list" where
  "literal_tokens [] = []"
| "literal_tokens [v] = [Literal v]"
| "literal_tokens (v # w # vs) = Literal v # Symbol (CHR '','') # literal_tokens (w # vs)"

definition clause_tokens :: "string \<times> string list \<Rightarrow> token list" where
  "clause_tokens entry =
     [Word ''AND'', Word (fst entry), Word ''IN'', Symbol (CHR ''('')]
       @ literal_tokens (snd entry) @ [Symbol (CHR '')'')]"

definition well_formed :: "string \<times> string list \<Rightarrow> bool" where
  "well_formed entry \<longleftrightarrow>
     text_column (fst entry) \<noteq> None \<and> (\<forall>v\<in>set (snd entry). quote \<notin> set v)"

definition text_value :: "string \<Rightarrow> vehicle \<Rightarrow> string option" where
  "text_value column row = (case text_column column of None \<Rightarrow> None | Some get \<Rightarrow> get row)"

section \<open>Loading a batch (\<^verbatim>\<open>load_csv\<close>)\<close>

text \<open>
  The frame \<^verbatim>\<open>pd.read_csv\<close> returns: the header's column names (pandas makes them
  pairwise different) and the rows, each holding one cell per column. A cell is missing
  (\<open>NaN\<close>), a text or a number.
\<close>

datatype cell = NaN | Str string | Num rat

record dataframe =
  df_columns :: "string list"
  df_rows :: "cell list list"

text \<open>
  The conversions of single values that pandas and the engine perform are taken as given:
  \<open>numeric_of_str\<close> is \<^verbatim>\<open>pd.to_numeric\<close> on one text (\<open>None\<close> when it is not a number),
  the others are the engine's casts of a number or a text to the type of the column that
  receives it, with the width \<open>w\<close> of a \<^verbatim>\<open>DECIMAL(w,2)\<close> (\<open>None\<close> when the engine raises
  a conversion error). A statement below with a free \<open>conv\<close> holds for all such
  conversions.
\<close>

record conversions =
  numeric_of_str :: "string \<Rightarrow> rat option"
  varchar_of_num :: "rat \<Rightarrow> string"
  decimal_of_num :: "nat \<Rightarrow> rat \<Rightarrow> rat option"
  decimal_of_str :: "nat \<Rightarrow> string \<Rightarrow> rat option"
  integer_of_num :: "rat \<Rightarrow> int option"
  integer_of_str :: "string \<Rightarrow> int option"

definition numeric_columns :: "string list" where
  "numeric_columns =
     [''top_speed_kmh'', ''battery_capacity_kWh'', ''number_of_cells'',
      ''torque_nm'', ''efficiency_wh_per_km'', ''range_km'',
      ''acceleration_0_100_s'', ''fast_charging_power_kw_dc'',
      ''towing_capacity_kg'', ''cargo_volume_l'', ''seats'',
      ''length_mm'', ''width_mm'', ''height_mm'']"

definition required_columns :: "string list" where
  "required_columns = [''brand'', ''model'', ''segment'', ''car_body_type'']"

text \<open>\<^verbatim>\<open>pd.to_numeric(..., errors='coerce')\<close> on one cell.\<close>

fun to_numeric :: "conversions \<Rightarrow> cell \<Rightarrow> cell" where
  "to_numeric conv NaN = NaN"
| "to_numeric conv (Num n) = Num n"
| "to_numeric conv (Str s) =
     (case numeric_of_str conv s of None \<Rightarrow> NaN | Some n \<Rightarrow> Num n)"

text \<open>\<^verbatim>\<open>df[col] = f(df[col])\<close>: the cells of the column named \<open>col\<close> are replaced.\<close>

definition map_column :: "string \<Rightarrow> (cell \<Rightarrow> cell) \<Rightarrow> dataframe \<Rightarrow> dataframe" where
  "map_column col f df =
     df\<lparr>df_rows :=
          map (\<lambda>row. map2 (\<lambda>name c. if name = col then f c else c) (df_columns df) row)
            (df_rows df)\<rparr>"

definition to_numeric_columns :: "conversions \<Rightarrow> dataframe \<Rightarrow> dataframe" where
  "to_numeric_columns conv df =
     foldl (\<lambda>d col. if col \<in> set (df_columns d) then map_column col (to_numeric conv) d else d)
       df numeric_columns"

text \<open>
  \<^verbatim>\<open>df.dropna(subset=..., how='any')\<close> keeps the rows whose cell is present in every
  column of the subset; the cell of a row under a column name is found through the header.
\<close>

definition notna :: "string list \<Rightarrow> cell list \<Rightarrow> string \<Rightarrow> bool" where
  "notna cols row name =
     (case map_of (zip cols row) name of None \<Rightarrow> False | Some c \<Rightarrow> c \<noteq> NaN)"

definition dropna :: "string list \<Rightarrow> dataframe \<Rightarrow> dataframe" where
  "dropna names df =
     df\<lparr>df_rows := filter (\<lambda>row. list_all (notna (df_columns df) row) names) (df_rows df)\<rparr>"

text \<open>
  \<^verbatim>\<open>INSERT INTO vehicle_data SELECT * FROM temp_df\<close> names no columns: the engine binds
  the frame's columns to the table's by position, the first to \<^verbatim>\<open>brand\<close>, the second to
  \<^verbatim>\<open>model\<close>, and so on; it refuses a frame that does not have 22 columns, and casts every
  cell to the type of the table column at its position. A missing cell becomes
  \<^verbatim>\<open>NULL\<close> whatever the type. A number of magnitude \<open>10 ^ (w - 2)\<close> or more has no
  \<^verbatim>\<open>DECIMAL(w,2)\<close> value and a number outside \<open>-2 ^ 31 - 1 < n < 2 ^ 31\<close> has no
  \<^verbatim>\<open>INTEGER\<close> value: the engine raises a conversion error for it (the schema's types
  exclude it); the cast of any other number is the engine's. A frame is rectangular, so a
  row with another number of cells than the header does not occur; \<open>store_row\<close> gives no
  result for one.
\<close>

fun as_varchar :: "conversions \<Rightarrow> cell \<Rightarrow> string option option" where
  "as_varchar conv NaN = Some None"
| "as_varchar conv (Str s) = Some (Some s)"
| "as_varchar conv (Num n) = Some (Some (varchar_of_num conv n))"

fun as_decimal :: "conversions \<Rightarrow> nat \<Rightarrow> cell \<Rightarrow> rat option option" where
  "as_decimal conv w NaN = Some None"
| "as_decimal conv w (Str s) = map_option Some (decimal_of_str conv w s)"
| "as_decimal conv w (Num n) =
     (if 10 ^ (w - 2) \<le> \<bar>n\<bar> then None else map_option Some (decimal_of_num conv w n))"

fun as_integer :: "conversions \<Rightarrow> cell \<Rightarrow> int option option" where
  "as_integer conv NaN = Some None"
| "as_integer conv (Str s) = map_option Some (integer_of_str conv s)"
| "as_integer conv (Num n) =
     (if 2 ^ 31 \<le> n \<or> n \<le> - (2 ^ 31) - 1 then None
      else map_option Some (integer_of_num conv n))"

definition store_row :: "conversions \<Rightarrow> cell list \<Rightarrow> vehicle option" where
  "store_row conv row =
     (if length row \<noteq> 22 then None
      else do {
        c0 \<leftarrow> as_varchar conv (row ! 0);
        c1 \<leftarrow> as_varchar conv (row ! 1);
        c2 \<leftarrow> as_decimal conv 6 (row ! 2);
        c3 \<leftarrow> as_decimal conv 6 (row ! 3);
        c4 \<leftarrow> as_varchar conv (row ! 4);
        c5 \<leftarrow> as_integer conv (row ! 5);
        c6 \<leftarrow> as_decimal conv 8 (row ! 6);
        c7 \<leftarrow> as_decimal conv 6 (row ! 7);
        c8 \<leftarrow> as_decimal conv 8 (row ! 8);
        c9 \<leftarrow> as_decimal conv 5 (row ! 9);
        c10 \<leftarrow> as_decimal conv 6 (row ! 10);
        c11 \<leftarrow> as_varchar conv (row ! 11);
        c12 \<leftarrow> as_decimal conv 8 (row ! 12);
        c13 \<leftarrow> as_decimal conv 8 (row ! 13);
        c14 \<leftarrow> as_integer conv (row ! 14);
        c15 \<leftarrow> as_varchar conv (row ! 15);
        c16 \<leftarrow> as_varchar conv (row ! 16);
        c17 \<leftarrow> as_decimal conv 8 (row ! 17);
        c18 \<leftarrow> as_decimal conv 8 (row ! 18);
        c19 \<leftarrow> as_decimal conv 8 (row ! 19);
        c20 \<leftarrow> as_varchar conv (row ! 20);
        c21 \<leftarrow> as_varchar conv (row ! 21);
        Some \<lparr>brand = c0, model = c1, top_speed_kmh = c2, battery_capacity_kWh = c3,
              battery_type = c4, number_of_cells = c5, torque_nm = c6,
              efficiency_wh_per_km = c7, range_km = c8, acceleration_0_100_s = c9,
              fast_charging_power_kw_dc = c10, fast_charge_port = c11,
              towing_capacity_kg = c12, cargo_volume_l = c13, seats = c14,
              drivetrain = c15, segment = c16, length_mm = c17, width_mm = c18,
              height_mm = c19, car_body_type = c20, source_url = c21\<rparr>
      })"

definition insert_select :: "conversions \<Rightarrow> dataframe \<Rightarrow> table \<Rightarrow> error + table" where
  "insert_select conv df tbl =
     (if length (df_columns df) \<noteq> 22 then Inl BinderError
      else
        (case those (map (store_row conv) (df_rows df)) of
           None \<Rightarrow> Inl ConversionError
         | Some new \<Rightarrow> Inr (tbl @ new)))"

text \<open>
  \<^verbatim>\<open>load_csv\<close> on the frame read from the file, in a table state: the number it returns
  and the table after it, or the exception it raises, the table then being as before
  (\<^verbatim>\<open>dropna\<close> raises \<open>KeyError\<close> for a subset column the frame does not have).
\<close>

definition load_csv :: "conversions \<Rightarrow> dataframe \<Rightarrow> table \<Rightarrow> error + nat \<times> table" where
  "load_csv conv df0 tbl =
     (let df1 = to_numeric_columns conv df0
      in if \<not> list_all (\<lambda>name. name \<in> set (df_columns df1)) required_columns
         then Inl KeyError
         else
           (let df = dropna required_columns df1
            in if length (df_rows df) > 0
               then (case insert_select conv df tbl of
                       Inl e \<Rightarrow> Inl e
                     | Inr tbl' \<Rightarrow> Inr (length (df_rows df), tbl'))
               else Inr (length (df_rows df), tbl)))"

text \<open>
  The rows of a frame in which \<^verbatim>\<open>brand\<close>, \<^verbatim>\<open>model\<close>, \<^verbatim>\<open>segment\<close> and
  \<^verbatim>\<open>car_body_type\<close> are all present, each found under its header name; and the table's
  column names in the order of the \<^verbatim>\<open>CREATE TABLE\<close> statement.
\<close>

definition complete_rows :: "dataframe \<Rightarrow> cell list list" where
  "complete_rows df =
     filter (\<lambda>row. list_all (notna (df_columns df) row) required_columns) (df_rows df)"

definition schema_columns :: "string list" where
  "schema_columns =
     [''brand'', ''model'', ''top_speed_kmh'', ''battery_capacity_kWh'', ''battery_type'',
      ''number_of_cells'', ''torque_nm'', ''efficiency_wh_per_km'', ''range_km'',
      ''acceleration_0_100_s'', ''fast_charging_power_kw_dc'', ''fast_charge_port'',
      ''towing_capacity_kg'', ''cargo_volume_l'', ''seats'', ''drivetrain'', ''segment'',
      ''length_mm'', ''width_mm'', ''height_mm'', ''car_body_type'', ''source_url'']"

text \<open>
  What the loop over \<open>numeric_columns\<close> makes of one row: the cells under a numeric
  column name converted, the others as they are. And the rows whose numbers the engine
  can cast when the header is in the table's order: at the position of every numeric
  column, the converted cell has a value of the column's type.
\<close>

definition coerce_row :: "conversions \<Rightarrow> string list \<Rightarrow> cell list \<Rightarrow> cell list" where
  "coerce_row conv cols row =
     map2 (\<lambda>name c. if name \<in> set numeric_columns then to_numeric conv c else c) cols row"

definition fits :: "conversions \<Rightarrow> cell list \<Rightarrow> bool" where
  "fits conv row \<longleftrightarrow>
     as_decimal conv 6 (to_numeric conv (row ! 2)) \<noteq> None
     \<and> as_decimal conv 6 (to_numeric conv (row ! 3)) \<noteq> None
     \<and> as_integer conv (to_numeric conv (row ! 5)) \<noteq> None
     \<and> as_decimal conv 8 (to_numeric conv (row ! 6)) \<noteq> None
     \<and> as_decimal conv 6 (to_numeric conv (row ! 7)) \<noteq> None
     \<and> as_decimal conv 8 (to_numeric conv (row ! 8)) \<noteq> None
     \<and> as_decimal conv 5 (to_numeric conv (row ! 9)) \<noteq> None
     \<and> as_decimal conv 6 (to_numeric conv (row ! 10)) \<noteq> None
     \<and> as_decimal conv 8 (to_numeric conv (row ! 12)) \<noteq> None
     \<and> as_decimal conv 8 (to_numeric conv (row ! 13)) \<noteq> None
     \<and> as_integer conv (to_numeric conv (row ! 14)) \<noteq> None
     \<and> as_decimal conv 8 (to_numeric conv (row ! 17)) \<noteq> None
     \<and> as_decimal conv 8 (to_numeric conv (row ! 18)) \<noteq> None
     \<and> as_decimal conv 8 (to_numeric conv (row ! 19)) \<noteq> None"

section \<open>The four aggregation queries\<close>

text \<open>
  \<^verbatim>\<open>.df()\<close> turns the result into a pandas frame: the list of its rows, a \<^verbatim>\<open>NULL\<close> read
  as a missing value. The means are computed on exact rationals. The percentages of the
  fourth query pass through \<^verbatim>\<open>.round(2)\<close>, whose result can turn on the last bit of its
  argument, so they are computed as the program computes them, in binary64.

  \<^verbatim>\<open>sort_values\<close> is an insertion sort by the given order. It keeps rows with equal
  keys in their previous order; pandas' default sort gives no such promise, and nothing
  below depends on the order of rows with equal keys.
\<close>

fun insert_by :: "('a \<Rightarrow> 'a \<Rightarrow> bool) \<Rightarrow> 'a \<Rightarrow> 'a list \<Rightarrow> 'a list" where
  "insert_by le x [] = [x]"
| "insert_by le x (y # ys) = (if le x y then x # y # ys else y # insert_by le x ys)"

definition sort_values :: "('a \<Rightarrow> 'a \<Rightarrow> bool) \<Rightarrow> 'a list \<Rightarrow> 'a list" where
  "sort_values le xs = foldr (insert_by le) xs []"

text \<open>
  The two orders of an average that may be missing: descending and ascending, a missing
  value (pandas' \<^verbatim>\<open>NaN\<close>) after every number in both (\<^verbatim>\<open>na_position='last'\<close>).
\<close>

fun descending :: "rat option \<Rightarrow> rat option \<Rightarrow> bool" where
  "descending _ None = True"
| "descending None (Some y) = False"
| "descending (Some x) (Some y) = (y \<le> x)"

fun ascending :: "rat option \<Rightarrow> rat option \<Rightarrow> bool" where
  "ascending _ None = True"
| "ascending None (Some y) = False"
| "ascending (Some x) (Some y) = (x \<le> y)"

text \<open>\<^verbatim>\<open>Series.mean()\<close> of the values that are present: missing when there is none.\<close>

definition mean :: "rat list \<Rightarrow> rat option" where
  "mean xs = (if xs = [] then None else Some (sum_list xs / of_nat (length xs)))"

text \<open>
  \<^verbatim>\<open>df.groupby(key)[value].mean().reset_index()\<close>: one row per key that occurs (a row
  whose key is missing belongs to no group), in ascending order of the key, with the mean
  of the group's values that are present.
\<close>

definition groupby_mean ::
  "(vehicle \<Rightarrow> string option) \<Rightarrow> (vehicle \<Rightarrow> rat option) \<Rightarrow> vehicle list
     \<Rightarrow> (string \<times> rat option) list" where
  "groupby_mean key val df =
     map (\<lambda>k. (k, mean (List.map_filter val (filter (\<lambda>row. key row = Some k) df))))
       (sort (remdups (List.map_filter key df)))"

definition calculate_kpi_1_range_by_segment ::
  "table \<Rightarrow> filters \<Rightarrow> error + (string \<times> rat option) list" where
  "calculate_kpi_1_range_by_segment tbl filters =
     (case query_with_filters tbl filters of
        Inl e \<Rightarrow> Inl e
      | Inr df \<Rightarrow>
          if df = [] then Inr []
          else Inr (sort_values (\<lambda>a b. descending (snd a) (snd b))
                      (groupby_mean segment range_km df)))"

definition calculate_kpi_2_acceleration_by_brand ::
  "table \<Rightarrow> filters \<Rightarrow> error + (string \<times> rat option) list" where
  "calculate_kpi_2_acceleration_by_brand tbl filters =
     (case query_with_filters tbl filters of
        Inl e \<Rightarrow> Inl e
      | Inr df \<Rightarrow>
          if df = [] then Inr []
          else Inr (sort_values (\<lambda>a b. ascending (snd a) (snd b))
                      (groupby_mean brand acceleration_0_100_s df)))"

text \<open>
  \<^verbatim>\<open>df[['battery_capacity_kWh', 'efficiency_wh_per_km', 'segment', 'brand', 'model']]\<close>
  and \<^verbatim>\<open>.dropna()\<close>, which without a \<^verbatim>\<open>subset\<close> drops a row when any of the five
  selected values is missing.
\<close>

type_synonym scatter_row =
  "rat option \<times> rat option \<times> string option \<times> string option \<times> string option"

definition select_columns :: "vehicle \<Rightarrow> scatter_row" where
  "select_columns row =
     (battery_capacity_kWh row, efficiency_wh_per_km row, segment row, brand row, model row)"

fun complete :: "scatter_row \<Rightarrow> bool" where
  "complete (b, e, s, br, m) \<longleftrightarrow> b \<noteq> None \<and> e \<noteq> None \<and> s \<noteq> None \<and> br \<noteq> None \<and> m \<noteq> None"

text \<open>
  The table this query returns, with its column names: for an empty frame the code builds
  an empty table of three columns, otherwise the selection has five.
\<close>

record scatter_frame =
  scatter_columns :: "string list"
  scatter_rows :: "scatter_row list"

definition calculate_kpi_3_battery_vs_efficiency ::
  "table \<Rightarrow> filters \<Rightarrow> error + scatter_frame" where
  "calculate_kpi_3_battery_vs_efficiency tbl filters =
     (case query_with_filters tbl filters of
        Inl e \<Rightarrow> Inl e
      | Inr df \<Rightarrow>
          if df = [] then
            Inr \<lparr>scatter_columns = [''battery_capacity_kWh'', ''efficiency_wh_per_km'', ''segment''],
                 scatter_rows = []\<rparr>
          else
            Inr \<lparr>scatter_columns =
                   [''battery_capacity_kWh'', ''efficiency_wh_per_km'', ''segment'', ''brand'',
                    ''model''],
                 scatter_rows = filter complete (map select_columns df)\<rparr>)"

text \<open>
  \<^verbatim>\<open>Series.value_counts()\<close>: the values that are present, each once, with the number of
  its occurrences, the most frequent first.
\<close>

definition value_counts :: "string option list \<Rightarrow> (string \<times> nat) list" where
  "value_counts col =
     sort_values (\<lambda>a b. snd b \<le> snd a)
       (map (\<lambda>v. (v, count_list col (Some v))) (remdups (List.map_filter id col)))"

text \<open>
  Binary64 arithmetic on the exact values of the floating-point numbers. \<open>float64 x\<close> is
  the floating-point number nearest to \<open>x\<close>, a tie going to the even significand: with
  \<open>2 ^ e \<le> \<bar>x\<bar> < 2 ^ (e + 1)\<close> (\<open>e\<close> is \<open>binade x\<close>, and not below \<open>-1022\<close>, where the
  subnormal numbers begin) it is the nearest multiple of \<open>2 ^ (e - 52)\<close>. Every
  floating-point operation gives the \<open>float64\<close> of the exact result. No value below comes
  near the largest floating-point number, so overflow is left out.
\<close>

definition round_half_even :: "rat \<Rightarrow> int" where
  "round_half_even x =
     (let f = \<lfloor>x\<rfloor>; d = x - of_int f
      in if d < 1 / 2 then f else if 1 / 2 < d then f + 1 else if even f then f else f + 1)"

definition binade :: "rat \<Rightarrow> int" where
  "binade x =
     (if 1 \<le> \<bar>x\<bar> then bitlen \<lfloor>\<bar>x\<bar>\<rfloor> - 1 else - bitlen (\<lceil>1 / \<bar>x\<bar>\<rceil> - 1))"

definition pow2 :: "int \<Rightarrow> rat" where
  "pow2 k = (if 0 \<le> k then 2 ^ nat k else 1 / 2 ^ nat (- k))"

definition float64 :: "rat \<Rightarrow> rat" where
  "float64 x =
     (if x = 0 then 0
      else (let u = pow2 (max (binade x) (- 1022) - 52)
            in of_int (round_half_even (x / u)) * u))"

text \<open>
  \<^verbatim>\<open>.round(decimals)\<close> of a floating-point number, as numpy does it: multiply by
  \<open>10 ^ decimals\<close>, round to the nearest integer (a tie to the even one), divide by
  \<open>10 ^ decimals\<close>.
\<close>

definition np_round :: "nat \<Rightarrow> rat \<Rightarrow> rat" where
  "np_round decimals x =
     float64 (of_int (round_half_even (float64 (x * 10 ^ decimals))) / 10 ^ decimals)"

text \<open>
  \<^verbatim>\<open>(result['count'] / result['count'].sum() * 100).round(2)\<close> for one count: the two
  integers become floating-point numbers, then the division, the multiplication and the
  rounding follow.
\<close>

definition percentage :: "nat \<Rightarrow> nat \<Rightarrow> rat" where
  "percentage n whole =
     np_round 2 (float64 (float64 (float64 (of_nat n) / float64 (of_nat whole)) * 100))"

definition calculate_kpi_4_distribution_by_body_type ::
  "table \<Rightarrow> filters \<Rightarrow> error + (string \<times> nat \<times> rat) list" where
  "calculate_kpi_4_distribution_by_body_type tbl filters =
     (case query_with_filters tbl filters of
        Inl e \<Rightarrow> Inl e
      | Inr df \<Rightarrow>
          if df = [] then Inr []
          else
            (let result = value_counts (map car_body_type df);
                 total = sum_list (map snd result)
             in Inr (sort_values (\<lambda>a b. fst (snd b) \<le> fst (snd a))
                       (map (\<lambda>(body, n). (body, n, percentage n total)) result))))"

section \<open>The required fields and example data\<close>

text \<open>The predicate of the store's invariant: the four required fields are present.\<close>

definition required_present :: "vehicle \<Rightarrow> bool" where
  "required_present row \<longleftrightarrow>
     brand row \<noteq> None \<and> model row \<noteq> None \<and> segment row \<noteq> None \<and> car_body_type row \<noteq> None"

text \<open>
  The four vehicles of the test fixture (\<^verbatim>\<open>tests/test_database.py\<close>, \<^verbatim>\<open>sample_csv\<close>),
  with the fields the queries read; the last one is given no efficiency and no range, so
  that the examples also cover a missing value.
\<close>

definition car ::
  "string \<Rightarrow> string \<Rightarrow> string \<Rightarrow> string \<Rightarrow> rat option \<Rightarrow> rat option \<Rightarrow> rat option \<Rightarrow> rat option \<Rightarrow> vehicle" where
  "car b m s body battery efficiency rng acceleration =
     \<lparr>brand = Some b, model = Some m, top_speed_kmh = None, battery_capacity_kWh = battery,
      battery_type = None, number_of_cells = None, torque_nm = None,
      efficiency_wh_per_km = efficiency, range_km = rng,
      acceleration_0_100_s = acceleration, fast_charging_power_kw_dc = None,
      fast_charge_port = None, towing_capacity_kg = None, cargo_volume_l = None,
      seats = None, drivetrain = None, segment = Some s, length_mm = None,
      width_mm = None, height_mm = None, car_body_type = Some body, source_url = None\<rparr>"

definition sample :: table where
  "sample =
     [car ''Tesla'' ''Model 3'' ''C - Medium'' ''Sedan'' (Some 75) (Some 150) (Some 500) (Some (51 / 10)),
      car ''Tesla'' ''Model Y'' ''JC - Medium'' ''SUV'' (Some 75) (Some 160) (Some 480) (Some (58 / 10)),
      car ''BMW'' ''i4'' ''C - Medium'' ''Sedan'' (Some (163 / 2)) (Some 170) (Some 450) (Some (55 / 10)),
      car ''Audi'' ''e-tron'' ''JC - Medium'' ''SUV'' (Some 100) None None (Some (52 / 10))]"

text \<open>Six vehicles with six different body types.\<close>

definition six_body_types :: table where
  "six_body_types =
     [car ''Tesla'' ''Model 3'' ''D'' ''Sedan'' None None None None,
      car ''Tesla'' ''Model Y'' ''JD'' ''SUV'' None None None None,
      car ''Renault'' ''Zoe'' ''B'' ''Hatchback'' None None None None,
      car ''Audi'' ''e-tron GT'' ''F'' ''Coupe'' None None None None,
      car ''MG'' ''MG5'' ''C'' ''Station'' None None None None,
      car ''Fiat'' ''500e Cabrio'' ''A'' ''Cabriolet'' None None None None]"

text \<open>A table with one vehicle whose brand contains an apostrophe.\<close>

definition apostrophe :: table where
  "apostrophe = [car ''O'Neil'' ''One'' ''C - Medium'' ''Sedan'' None None None None]"

text \<open>
  Frames as \<^verbatim>\<open>pd.read_csv\<close> returns them. \<open>cells\<close> is a row of 22 cells with the given
  cells at the positions 0, 1, 4, 16 and 20 and every other cell missing. \<open>batch\<close> has
  the header in the table's order and two rows, the second without a model.
  \<open>model_first\<close> is the file whose header starts \<^verbatim>\<open>model,brand,...\<close>;
  \<open>battery_type_first\<close> is the file whose header has \<^verbatim>\<open>battery_type\<close> first and
  \<^verbatim>\<open>brand\<close> fifth, the second row with an empty battery type.
\<close>

definition cells :: "cell \<Rightarrow> cell \<Rightarrow> cell \<Rightarrow> cell \<Rightarrow> cell \<Rightarrow> cell list" where
  "cells c0 c1 c4 c16 c20 =
     [c0, c1, NaN, NaN, c4, NaN, NaN, NaN, NaN, NaN, NaN, NaN, NaN, NaN, NaN, NaN, c16,
      NaN, NaN, NaN, c20, NaN]"

definition batch :: dataframe where
  "batch =
     \<lparr>df_columns = schema_columns,
      df_rows =
        [cells (Str ''Kia'') (Str ''EV6'') NaN (Str ''JC - Medium'') (Str ''SUV''),
         cells (Str ''Kia'') NaN NaN (Str ''B - Compact'') (Str ''Hatchback'')]\<rparr>"

definition model_first :: dataframe where
  "model_first =
     \<lparr>df_columns = schema_columns[0 := ''model'', 1 := ''brand''],
      df_rows = [cells (Str ''EV6'') (Str ''Kia'') NaN (Str ''JC - Medium'') (Str ''SUV'')]\<rparr>"

definition battery_type_first :: dataframe where
  "battery_type_first =
     \<lparr>df_columns = schema_columns[0 := ''battery_type'', 4 := ''brand''],
      df_rows =
        [cells (Str ''Lithium-ion'') (Str ''EV6'') (Str ''Kia'') (Str ''JC - Medium'') (Str ''SUV''),
         cells NaN (Str ''EV9'') (Str ''Kia'') (Str ''JE - Executive'') (Str ''SUV'')]\<rparr>"

text \<open>
  Conversions that accept nothing, to close the example of a load that raises whatever
  the conversions are.
\<close>

definition refuse_all :: conversions where
  "refuse_all =
     \<lparr>numeric_of_str = (\<lambda>s. None), varchar_of_num = (\<lambda>n. []),
      decimal_of_num = (\<lambda>w n. None), decimal_of_str = (\<lambda>w s. None),
      integer_of_num = (\<lambda>n. None), integer_of_str = (\<lambda>s. None)\<rparr>"

text \<open>
  A frame with the header in the table's order whose only row has the top speed
  \<open>100000\<close>, which \<^verbatim>\<open>DECIMAL(6,2)\<close> cannot hold.
\<close>

definition out_of_range :: dataframe where
  "out_of_range =
     \<lparr>df_columns = schema_columns,
      df_rows =
        [(cells (Str ''Kia'') (Str ''EV6'') NaN (Str ''JC - Medium'') (Str ''SUV''))
           [2 := Num 100000]]\<rparr>"

text \<open>
  The file with \<^verbatim>\<open>battery_type\<close> first and \<^verbatim>\<open>brand\<close> fifth again, now with one row
  that has a battery capacity of 100 and an efficiency of 180 and an empty battery type;
  and the table that holds what the load stores for it: a row with a \<^verbatim>\<open>NULL\<close> brand.
\<close>

definition exchanged_with_numbers :: dataframe where
  "exchanged_with_numbers =
     \<lparr>df_columns = schema_columns[0 := ''battery_type'', 4 := ''brand''],
      df_rows =
        [(cells NaN (Str ''EV9'') (Str ''Kia'') (Str ''JE - Executive'') (Str ''SUV''))
           [3 := Num 100, 7 := Num 180]]\<rparr>"

definition null_brand :: table where
  "null_brand =
     [(car ''Kia'' ''EV9'' ''JE - Executive'' ''SUV'' (Some 100) (Some 180) None None)
        \<lparr>brand := None, battery_type := Some ''Kia''\<rparr>]"

section \<open>Properties of the filter model\<close>

lemma update_fresh_key:
  "key \<notin> fst ` set acc \<Longrightarrow> AList.update key values acc = acc @ [(key, values)]"
  by (induction acc) auto

lemma apply_filters_loop:
  "distinct (map fst acc @ map fst sel) \<Longrightarrow>
   foldl (\<lambda>validated_filters (key, values).
            if values \<noteq> [] then AList.update key values validated_filters
            else validated_filters) acc sel
   = acc @ filter (\<lambda>(key, values). values \<noteq> []) sel"
proof (induction sel arbitrary: acc)
  case Nil
  then show ?case by simp
next
  case (Cons entry sel)
  obtain k vs where entry: "entry = (k, vs)" by (cases entry)
  show ?case
  proof (cases "vs = []")
    case True
    with Cons.prems entry have "distinct (map fst acc @ map fst sel)" by simp
    from Cons.IH [OF this] True entry show ?thesis by simp
  next
    case False
    from Cons.prems entry have fresh: "k \<notin> fst ` set acc" by auto
    from Cons.prems entry
    have "distinct (map fst (acc @ [(k, vs)]) @ map fst sel)" by auto
    from Cons.IH [OF this] False entry fresh show ?thesis
      by (simp add: update_fresh_key)
  qed
qed

text \<open>
  C9. For a selection mapping (keys pairwise different), \<open>apply_filters\<close> returns exactly
  the entries whose value list is non-empty, each with the value list it was given, in the
  order of the selection; read as a mapping, a key is bound in the result exactly when the
  selection binds it to a non-empty list, and then to that same list.
\<close>

theorem apply_filters_keeps_nonempty:
  assumes "distinct (map fst selected_filters)"
  shows "apply_filters selected_filters
           = filter (\<lambda>(key, values). values \<noteq> []) selected_filters
         \<and> distinct (map fst (apply_filters selected_filters))
         \<and> map_of (apply_filters selected_filters) key
           = (case map_of selected_filters key of
                None \<Rightarrow> None
              | Some values \<Rightarrow> if values = [] then None else Some values)"
proof -
  have eq: "apply_filters selected_filters
              = filter (\<lambda>(key, values). values \<noteq> []) selected_filters"
    using apply_filters_loop [of "[]" selected_filters] assms
    by (simp add: apply_filters_def)
  have dist: "distinct (map fst (filter (\<lambda>(key, values). values \<noteq> []) selected_filters))"
    using assms by (rule distinct_map_filter)
  have look: "map_of (filter (\<lambda>(key, values). values \<noteq> []) selected_filters) key
           = (case map_of selected_filters key of
                None \<Rightarrow> None
              | Some values \<Rightarrow> if values = [] then None else Some values)"
    using assms
  proof (induction selected_filters)
    case Nil
    then show ?case by simp
  next
    case (Cons entry sel)
    obtain k vs where entry: "entry = (k, vs)" by (cases entry)
    from Cons.prems entry have notin: "k \<notin> fst ` set sel" by auto
    then have absent: "map_of (filter (\<lambda>(key, values). values \<noteq> []) sel) k = None"
      by (auto simp: map_of_eq_None_iff)
    from Cons entry absent show ?case by auto
  qed
  from eq dist look show ?thesis by simp
qed

theorem apply_filters_keeps_nonempty_witness:
  "distinct (map fst [(''brand'', [''Tesla'']), (''segment'', []), (''car_body_type'', [])])
   \<and> apply_filters [(''brand'', [''Tesla'']), (''segment'', []), (''car_body_type'', [])]
       = [(''brand'', [''Tesla''])]
   \<and> map_of (apply_filters [(''brand'', [''Tesla'']), (''segment'', []), (''car_body_type'', [])])
        ''segment'' = None"
  using apply_filters_keeps_nonempty
    [of "[(''brand'', [''Tesla'']), (''segment'', []), (''car_body_type'', [])]" "''segment''"]
  by simp

section \<open>Properties of sorting\<close>

lemma set_insert_by: "set (insert_by le x xs) = insert x (set xs)"
  by (induction xs) auto

lemma set_sort_values: "set (sort_values le xs) = set xs"
  by (induction xs) (auto simp: sort_values_def set_insert_by)

lemma sort_values_Nil: "sort_values le [] = []"
  by (simp add: sort_values_def)

lemma sort_values_Cons: "sort_values le (x # xs) = insert_by le x (sort_values le xs)"
  by (simp add: sort_values_def)

lemma distinct_map_insert_by:
  "distinct (map f (insert_by le x xs)) \<longleftrightarrow> f x \<notin> f ` set xs \<and> distinct (map f xs)"
  by (induction xs) (auto simp: set_insert_by)

lemma distinct_map_sort_values:
  "distinct (map f (sort_values le xs)) \<longleftrightarrow> distinct (map f xs)"
  by (induction xs) (auto simp: sort_values_Nil sort_values_Cons distinct_map_insert_by set_sort_values)

lemma sum_list_insert_by:
  "sum_list (map g (insert_by le x xs)) = g x + sum_list (map g xs)"
  for g :: "'a \<Rightarrow> 'b::comm_monoid_add"
  by (induction xs) (auto simp: ac_simps)

lemma sum_list_sort_values:
  "sum_list (map g (sort_values le xs)) = sum_list (map g xs)"
  for g :: "'a \<Rightarrow> 'b::comm_monoid_add"
  by (induction xs) (auto simp: sort_values_Nil sort_values_Cons sum_list_insert_by)

lemma sorted_insert_by:
  assumes total: "\<And>a b. le a b \<or> le b a" and trans: "\<And>a b c. le a b \<Longrightarrow> le b c \<Longrightarrow> le a c"
    and "sorted_wrt le xs"
  shows "sorted_wrt le (insert_by le x xs)"
  using assms(3)
proof (induction xs)
  case Nil
  then show ?case by simp
next
  case (Cons y ys)
  show ?case
  proof (cases "le x y")
    case True
    with Cons.prems trans show ?thesis by auto
  next
    case False
    with total have "le y x" by blast
    with Cons False show ?thesis by (auto simp: set_insert_by)
  qed
qed

lemma sorted_sort_values:
  assumes total: "\<And>a b. le a b \<or> le b a" and trans: "\<And>a b c. le a b \<Longrightarrow> le b c \<Longrightarrow> le a c"
  shows "sorted_wrt le (sort_values le xs)"
proof (induction xs)
  case Nil
  show ?case by (simp add: sort_values_Nil)
next
  case (Cons x xs)
  then show ?case
    using sorted_insert_by [of le, OF total trans] by (simp add: sort_values_Cons)
qed

lemma descending_total: "descending a b \<or> descending b a"
  by (cases a; cases b) auto

lemma descending_trans: "descending a b \<Longrightarrow> descending b c \<Longrightarrow> descending a c"
  by (cases a; cases b; cases c) auto

section \<open>Properties of the filtered query\<close>

lemmas engine_defs =
  query_with_filters_def execute_select_def build_query_def quote_def start_def
  word_char_def blank_def parse_select_def select_head_def text_column_def in_list_def

lemma sample_audi:
  "query_with_filters sample [(''brand'', [''Audi''])] = Inr (drop 3 sample)"
  by (simp add: engine_defs sample_def car_def)

section \<open>The filtered query on the text it builds\<close>

lemma quoted_fun: "(\<lambda>v. quote # v @ [quote]) = quoted"
  by (simp add: fun_eq_iff quoted_def)

lemma map_option_append_Nil: "map_option ((@) []) x = x"
  by (cases x) auto

lemma map_option_append_Cons:
  "map_option ((@) (a # as)) x = map_option ((#) a) (map_option ((@) as) x)"
  by (cases x) auto

lemmas prepend = map_option_append_Nil map_option_append_Cons

lemma build_query_loop:
  "foldl (\<lambda>query (column, values).
              if values \<noteq> [] then
                query @ '' AND '' @ column @ '' IN (''
                  @ join '','' (map (\<lambda>v. quote # v @ [quote]) values) @ '')''
              else query) q filters
   = q @ concat (map clause_text (filter (\<lambda>(column, values). values \<noteq> []) filters))"
  by (induction filters arbitrary: q) (auto simp: clause_text_def quoted_fun)

lemma build_query_text:
  "build_query filters
   = ''SELECT * FROM vehicle_data WHERE 1=1''
       @ concat (map clause_text (filter (\<lambda>(column, values). values \<noteq> []) filters))"
  unfolding build_query_def by (rule build_query_loop)

lemma word_char_not_quote: "word_char c \<Longrightarrow> c \<noteq> quote"
  by (auto simp: word_char_def quote_def)

lemma word_char_not_blank: "word_char c \<Longrightarrow> \<not> blank c"
  by (auto simp: word_char_def blank_def)

lemma tokens_word:
  "\<forall>c\<in>set cs. word_char c \<Longrightarrow> tokens Between rest = Some ts \<Longrightarrow>
   tokens (InWord w) (cs @ CHR '' '' # rest) = Some (Word (w @ cs) # ts)"
proof (induction cs arbitrary: w)
  case Nil
  then show ?case by (simp add: word_char_def start_def blank_def quote_def)
next
  case (Cons c cs)
  then show ?case by (simp add: prepend)
qed

lemma tokens_literal:
  "quote \<notin> set v \<Longrightarrow>
   tokens (InLiteral s) (v @ quote # rest) = tokens (AfterQuote (s @ v)) rest"
  by (induction v arbitrary: s) (auto simp: prepend)

lemma tokens_quoted:
  "quote \<notin> set v \<Longrightarrow>
   tokens Between (quoted v @ rest) = tokens (AfterQuote v) rest"
  using tokens_literal [of v "[]" rest] by (simp add: quoted_def start_def prepend)

lemma tokens_literals:
  "vs \<noteq> [] \<Longrightarrow> \<forall>v\<in>set vs. quote \<notin> set v \<Longrightarrow> tokens Between rest = Some ts \<Longrightarrow>
   tokens Between (join '','' (map quoted vs) @ CHR '')'' # rest)
   = Some (literal_tokens vs @ Symbol (CHR '')'') # ts)"
proof (induction vs rule: literal_tokens.induct)
  case 1
  then show ?case by simp
next
  case (2 v)
  then show ?case
    by (simp add: tokens_quoted start_def quote_def blank_def word_char_def)
next
  case (3 v w vs)
  then have "tokens Between (join '','' (map quoted (w # vs)) @ CHR '')'' # rest)
      = Some (literal_tokens (w # vs) @ Symbol (CHR '')'') # ts)"
    by simp
  with 3(3) show ?case
    by (simp add: tokens_quoted start_def quote_def blank_def word_char_def)
qed

lemma tokens_clause:
  assumes "\<forall>c\<in>set column. word_char c" and "column \<noteq> []"
    and "vs \<noteq> []" and "\<forall>v\<in>set vs. quote \<notin> set v"
    and "tokens Between rest = Some ts"
  shows "tokens Between (clause_text (column, vs) @ rest)
         = Some (clause_tokens (column, vs) @ ts)"
proof -
  obtain c cs where column: "column = c # cs" using assms(2) by (cases column) auto
  with assms(1) have c: "word_char c" and cs: "\<forall>c\<in>set cs. word_char c" by auto
  from c have c': "c \<noteq> quote" "\<not> blank c"
    by (auto dest: word_char_not_quote word_char_not_blank)
  have lits: "tokens Between (join '','' (map quoted vs) @ CHR '')'' # rest)
              = Some (literal_tokens vs @ Symbol (CHR '')'') # ts)"
    using assms(3,4,5) by (rule tokens_literals)
  have in_kw: "tokens Between (''IN ('' @ join '','' (map quoted vs) @ CHR '')'' # rest)
        = Some (Word ''IN'' # Symbol (CHR ''('') # literal_tokens vs @ Symbol (CHR '')'') # ts)"
    using lits by (simp add: start_def quote_def blank_def word_char_def)
  have col: "tokens (InWord [c]) (cs @ CHR '' '' # ''IN ('' @ join '','' (map quoted vs) @ CHR '')'' # rest)
        = Some (Word ([c] @ cs) # Word ''IN'' # Symbol (CHR ''('') # literal_tokens vs @ Symbol (CHR '')'') # ts)"
    using cs in_kw by (rule tokens_word)
  have "tokens Between (''AND '' @ column @ '' IN ('' @ join '','' (map quoted vs) @ CHR '')'' # rest)
        = Some (Word ''AND'' # Word column # Word ''IN'' # Symbol (CHR ''('') # literal_tokens vs @ Symbol (CHR '')'') # ts)"
    using col c c' column
    by (simp add: start_def quote_def blank_def word_char_def)
  then show ?thesis
    by (simp add: clause_text_def clause_tokens_def start_def quote_def blank_def)
qed

lemma text_column_word:
  "text_column column \<noteq> None \<Longrightarrow> column \<noteq> [] \<and> (\<forall>c\<in>set column. word_char c)"
  by (auto simp: text_column_def word_char_def split: if_splits)

lemma tokens_clauses:
  assumes "\<forall>entry\<in>set cls. well_formed entry \<and> snd entry \<noteq> []"
  shows "tokens Between (concat (map clause_text cls)) = Some (concat (map clause_tokens cls))"
  using assms
proof (induction cls)
  case Nil
  then show ?case by simp
next
  case (Cons entry cls)
  obtain column vs where entry: "entry = (column, vs)" by (cases entry)
  from Cons.prems entry have wf: "text_column column \<noteq> None" "\<forall>v\<in>set vs. quote \<notin> set v" "vs \<noteq> []"
    by (auto simp: well_formed_def)
  from Cons have rest: "tokens Between (concat (map clause_text cls)) = Some (concat (map clause_tokens cls))"
    by simp
  from text_column_word [OF wf(1)] have w: "\<forall>c\<in>set column. word_char c" "column \<noteq> []" by auto
  from tokens_clause [OF w wf(3) wf(2) rest] entry show ?case by simp
qed

lemma tokens_head:
  assumes "tokens Between rest = Some ts" and "rest = [] \<or> hd rest = CHR '' ''"
  shows "tokens Between (''SELECT * FROM vehicle_data WHERE 1=1'' @ rest) = Some (select_head @ ts)"
proof (cases rest)
  case Nil
  with assms show ?thesis
    by (simp add: select_head_def start_def quote_def blank_def word_char_def)
next
  case (Cons c cs)
  with assms show ?thesis
    by (simp add: select_head_def start_def quote_def blank_def word_char_def)
qed

lemma clauses_text_starts:
  "concat (map clause_text cls) = [] \<or> hd (concat (map clause_text cls)) = CHR '' ''"
  by (cases cls) (auto simp: clause_text_def)

lemma tokens_build_query:
  assumes "\<forall>entry\<in>set filters. well_formed entry"
  shows "tokens Between (build_query filters)
         = Some (select_head
                 @ concat (map clause_tokens (filter (\<lambda>(column, values). values \<noteq> []) filters)))"
proof -
  let ?cls = "filter (\<lambda>(column, values). values \<noteq> []) filters"
  from assms have "\<forall>entry\<in>set ?cls. well_formed entry \<and> snd entry \<noteq> []" by auto
  then have "tokens Between (concat (map clause_text ?cls)) = Some (concat (map clause_tokens ?cls))"
    by (rule tokens_clauses)
  from tokens_head [OF this clauses_text_starts] show ?thesis
    by (simp only: build_query_text)
qed

lemma clauses_literals:
  "vs \<noteq> [] \<Longrightarrow>
   clauses (ExpLiteral column acc) (literal_tokens vs @ Symbol (CHR '')'') # ts)
   = map_option ((#) (column, acc @ vs)) (clauses ExpAnd ts)"
  by (induction vs arbitrary: acc rule: literal_tokens.induct) auto

lemma clauses_clause_tokens:
  "\<forall>entry\<in>set cls. snd entry \<noteq> [] \<Longrightarrow>
   clauses ExpAnd (concat (map clause_tokens cls)) = Some cls"
proof (induction cls)
  case Nil
  then show ?case by simp
next
  case (Cons entry cls)
  then show ?case
    by (cases entry) (simp add: clause_tokens_def clauses_literals)
qed

lemma parse_build_query:
  assumes "\<forall>entry\<in>set filters. well_formed entry"
  shows "Option.bind (tokens Between (build_query filters)) parse_select
         = Some (filter (\<lambda>(column, values). values \<noteq> []) filters)"
proof -
  have "\<forall>entry\<in>set (filter (\<lambda>(column, values). values \<noteq> []) filters). snd entry \<noteq> []"
    by auto
  from clauses_clause_tokens [OF this] show ?thesis
    by (simp add: tokens_build_query [OF assms] parse_select_def select_head_def)
qed

lemma where_clause_text:
  assumes "\<forall>entry\<in>set cls. text_column (fst entry) \<noteq> None"
  shows "\<exists>p. where_clause cls = Some p
           \<and> (\<forall>row. p row \<longleftrightarrow>
                 (\<forall>(column, vs)\<in>set cls.
                    \<exists>get. text_column column = Some get \<and> in_list get vs row))"
  using assms
proof (induction cls)
  case Nil
  then show ?case by simp
next
  case (Cons entry cls)
  obtain column vs where entry: "entry = (column, vs)" by (cases entry)
  from Cons.prems entry obtain get where get: "text_column column = Some get" by auto
  from Cons obtain p where p: "where_clause cls = Some p"
    "\<forall>row. p row \<longleftrightarrow> (\<forall>(column, vs)\<in>set cls.
                    \<exists>get. text_column column = Some get \<and> in_list get vs row)"
    by auto
  from entry get p show ?case by auto
qed

lemma in_list_text_value:
  "(\<exists>get. text_column column = Some get \<and> in_list get vs row)
   \<longleftrightarrow> text_value column row \<in> Some ` set vs"
proof (cases "text_column column")
  case None
  then show ?thesis by (auto simp: text_value_def)
next
  case (Some get)
  then show ?thesis
    by (cases "get row") (auto simp: text_value_def in_list_def)
qed

lemma query_with_filters_members:
  assumes "\<forall>entry\<in>set filters. well_formed entry"
  shows "query_with_filters tbl filters
         = Inr (filter (\<lambda>row. \<forall>(column, vs)\<in>set filters.
                                 vs \<noteq> [] \<longrightarrow> text_value column row \<in> Some ` set vs) tbl)"
proof -
  let ?cls = "filter (\<lambda>(column, values). values \<noteq> []) filters"
  from assms have "\<forall>entry\<in>set ?cls. text_column (fst entry) \<noteq> None"
    by (auto simp: well_formed_def)
  from where_clause_text [OF this] obtain p where p: "where_clause ?cls = Some p"
    "\<forall>row. p row \<longleftrightarrow>
       (\<forall>(column, vs)\<in>set ?cls. \<exists>get. text_column column = Some get \<and> in_list get vs row)"
    by blast
  have "tokens Between (build_query filters) \<noteq> None"
    using tokens_build_query [OF assms] by simp
  then obtain ts where ts: "tokens Between (build_query filters) = Some ts" by auto
  with parse_build_query [OF assms] have parsed: "parse_select ts = Some ?cls" by simp
  have run: "query_with_filters tbl filters = Inr (filter p tbl)"
    by (simp add: query_with_filters_def execute_select_def ts parsed p(1))
  have "p row \<longleftrightarrow> (\<forall>(column, vs)\<in>set filters.
                       vs \<noteq> [] \<longrightarrow> text_value column row \<in> Some ` set vs)" for row
  proof -
    have "p row \<longleftrightarrow>
       (\<forall>(column, vs)\<in>set ?cls. \<exists>get. text_column column = Some get \<and> in_list get vs row)"
      using p(2) by blast
    also have "\<dots> \<longleftrightarrow> (\<forall>(column, vs)\<in>set ?cls. text_value column row \<in> Some ` set vs)"
      by (simp only: in_list_text_value)
    also have "\<dots> \<longleftrightarrow> (\<forall>(column, vs)\<in>set filters.
                       vs \<noteq> [] \<longrightarrow> text_value column row \<in> Some ` set vs)"
      by auto
    finally show ?thesis .
  qed
  then have "filter p tbl
      = filter (\<lambda>row. \<forall>(column, vs)\<in>set filters.
                         vs \<noteq> [] \<longrightarrow> text_value column row \<in> Some ` set vs) tbl"
    by (intro filter_cong) auto
  with run show ?thesis by simp
qed

text \<open>
  C2. The claim promises, for every filter set, the rows whose value is one of the
  allowed values. \<open>query_with_filters_members\<close> shows that the code returns exactly
  these rows when no value contains a single quote. With a quote in a value the code does
  not: the value is pasted into the statement unescaped, so for the brand \<open>O'Neil\<close>, which
  the table holds, the statement ends inside a string literal and the engine raises a
  parser error instead of returning the row.
\<close>

theorem query_with_filters_quote:
  "brand (hd apostrophe) = Some ''O'Neil''
   \<and> query_with_filters apostrophe [(''brand'', [''O'Neil''])] = Inl ParserError"
  by (simp add: apostrophe_def car_def query_with_filters_def execute_select_def
      build_query_def quote_def start_def word_char_def blank_def)

section \<open>Properties of the aggregation queries\<close>

lemma set_map_filter: "set (List.map_filter f xs) = {y. \<exists>x\<in>set xs. f x = Some y}"
  by (induction xs) (auto simp: List.map_filter_simps split: option.splits)

lemma groupby_mean_keys:
  "set (map fst (groupby_mean key val df)) = {k. \<exists>row\<in>set df. key row = Some k}"
  by (simp add: groupby_mean_def comp_def set_map_filter)

lemma groupby_mean_distinct: "distinct (map fst (groupby_mean key val df))"
  by (simp add: groupby_mean_def comp_def)

lemma groupby_mean_rows:
  "(k, avg) \<in> set (groupby_mean key val df) \<Longrightarrow>
   avg = mean (List.map_filter val (filter (\<lambda>row. key row = Some k) df))"
  by (auto simp: groupby_mean_def)

lemma sample_tesla_bmw:
  "query_with_filters sample [(''brand'', [''Tesla'', ''BMW''])] = Inr (take 3 sample)"
  by (simp add: engine_defs sample_def car_def)

lemma sample_suv:
  "query_with_filters sample [(''car_body_type'', [''SUV''])] = Inr [sample ! 1, sample ! 3]"
  by (simp add: engine_defs sample_def car_def)

lemma range_by_segment_tesla_bmw:
  "calculate_kpi_1_range_by_segment sample [(''brand'', [''Tesla'', ''BMW''])]
   = Inr [(''JC - Medium'', Some 480), (''C - Medium'', Some 475)]"
  by (simp add: calculate_kpi_1_range_by_segment_def sample_tesla_bmw)
    (simp add: sample_def car_def groupby_mean_def mean_def sort_values_def
      List.map_filter_simps)

text \<open>
  C5. Whenever the filtered query returns rows, the range-by-segment query returns one row
  per segment that occurs among them (each segment once); the value beside a segment is
  the sum of the \<open>range_km\<close> values present in the rows of that segment divided by their
  number, and missing when there is none; and of any two result rows the earlier has the
  greater or equal average, a row with a missing average coming after every row with a
  number.
\<close>

theorem range_by_segment_groups:
  assumes "query_with_filters tbl filters = Inr df"
  shows "\<exists>result. calculate_kpi_1_range_by_segment tbl filters = Inr result
           \<and> distinct (map fst result)
           \<and> set (map fst result) = {s. \<exists>row\<in>set df. segment row = Some s}
           \<and> (\<forall>(s, avg)\<in>set result.
                 let present = List.map_filter range_km (filter (\<lambda>row. segment row = Some s) df)
                 in if present = [] then avg = None
                    else avg = Some (sum_list present / of_nat (length present)))
           \<and> sorted_wrt
                (\<lambda>(s, a) (t, b).
                   case b of
                     None \<Rightarrow> True
                   | Some y \<Rightarrow> (case a of None \<Rightarrow> False | Some x \<Rightarrow> y \<le> x))
                result"
proof (cases "df = []")
  case True
  with assms show ?thesis by (simp add: calculate_kpi_1_range_by_segment_def)
next
  case False
  let ?le = "\<lambda>a b :: string \<times> rat option. descending (snd a) (snd b)"
  let ?order = "\<lambda>(s :: string, a :: rat option) (t :: string, b :: rat option).
                   case b of
                     None \<Rightarrow> True
                   | Some y \<Rightarrow> (case a of None \<Rightarrow> False | Some x \<Rightarrow> y \<le> x)"
  let ?result = "sort_values ?le (groupby_mean segment range_km df)"
  have run: "calculate_kpi_1_range_by_segment tbl filters = Inr ?result"
    using assms False by (simp add: calculate_kpi_1_range_by_segment_def)
  have d: "distinct (map fst ?result)"
    by (simp add: distinct_map_sort_values groupby_mean_distinct)
  have k: "set (map fst ?result) = {s. \<exists>row\<in>set df. segment row = Some s}"
    using groupby_mean_keys [of segment range_km df] by (simp add: set_sort_values)
  have m: "\<forall>(s, avg)\<in>set ?result.
             let present = List.map_filter range_km (filter (\<lambda>row. segment row = Some s) df)
             in if present = [] then avg = None
                else avg = Some (sum_list present / of_nat (length present))"
    by (auto simp: set_sort_values mean_def Let_def dest!: groupby_mean_rows)
  have "sorted_wrt ?le ?result"
  proof (rule sorted_sort_values)
    show "?le a b \<or> ?le b a" for a b by (rule descending_total)
    show "?le a b \<Longrightarrow> ?le b c \<Longrightarrow> ?le a c" for a b c by (rule descending_trans)
  qed
  moreover have "?le a b \<Longrightarrow> ?order a b" for a b
    by (cases a; cases b; cases "snd a"; cases "snd b") auto
  ultimately have s: "sorted_wrt ?order ?result"
    by (rule sorted_wrt_mono_rel [rotated]) blast
  from run d k m s show ?thesis by blast
qed

theorem range_by_segment_groups_witness:
  "query_with_filters sample [(''brand'', [''Tesla'', ''BMW''])] = Inr (take 3 sample)
   \<and> calculate_kpi_1_range_by_segment sample [(''brand'', [''Tesla'', ''BMW''])]
       = Inr [(''JC - Medium'', Some 480), (''C - Medium'', Some ((500 + 450) / 2))]
   \<and> (\<exists>result. calculate_kpi_1_range_by_segment sample [(''brand'', [''Tesla'', ''BMW''])]
                   = Inr result
           \<and> distinct (map fst result)
           \<and> set (map fst result) = {s. \<exists>row\<in>set (take 3 sample). segment row = Some s}
           \<and> (\<forall>(s, avg)\<in>set result.
                 let present = List.map_filter range_km
                                 (filter (\<lambda>row. segment row = Some s) (take 3 sample))
                 in if present = [] then avg = None
                    else avg = Some (sum_list present / of_nat (length present)))
           \<and> sorted_wrt
                (\<lambda>(s, a) (t, b).
                   case b of
                     None \<Rightarrow> True
                   | Some y \<Rightarrow> (case a of None \<Rightarrow> False | Some x \<Rightarrow> y \<le> x))
                result)"
  using range_by_segment_groups [OF sample_tesla_bmw] sample_tesla_bmw
    range_by_segment_tesla_bmw
  by simp

text \<open>
  C10. A segment that has a row among the filtered rows, but no row with \<open>range_km\<close>
  present, still has its row in the result of the range-by-segment query, with a missing
  mean.
\<close>

theorem range_by_segment_keeps_group:
  assumes "query_with_filters tbl filters = Inr df"
    and "row \<in> set df" and "segment row = Some s"
    and "\<forall>r\<in>set df. segment r = Some s \<longrightarrow> range_km r = None"
  shows "\<exists>result. calculate_kpi_1_range_by_segment tbl filters = Inr result
           \<and> (s, None) \<in> set result"
proof -
  from assms(2) have ne: "df \<noteq> []" by auto
  have "List.map_filter range_km (filter (\<lambda>r. segment r = Some s) df) = []"
    using assms(4) by (induction df) (auto simp: List.map_filter_simps)
  then have avg: "mean (List.map_filter range_km (filter (\<lambda>r. segment r = Some s) df)) = None"
    by (simp add: mean_def)
  have "s \<in> set (List.map_filter segment df)"
    using assms(2,3) by (auto simp: set_map_filter)
  then have "(s, None) \<in> set (groupby_mean segment range_km df)"
    using avg by (auto simp: groupby_mean_def image_iff)
  with assms(1) ne show ?thesis
    by (simp add: calculate_kpi_1_range_by_segment_def set_sort_values)
qed

theorem range_by_segment_keeps_group_witness:
  "query_with_filters sample [(''brand'', [''Audi''])] = Inr (drop 3 sample)
   \<and> (\<exists>result. calculate_kpi_1_range_by_segment sample [(''brand'', [''Audi''])] = Inr result
        \<and> (''JC - Medium'', None) \<in> set result)"
proof -
  have "\<forall>r\<in>set (drop 3 sample). segment r = Some ''JC - Medium'' \<longrightarrow> range_km r = None"
    by (simp add: sample_def car_def)
  moreover have "sample ! 3 \<in> set (drop 3 sample)" "segment (sample ! 3) = Some ''JC - Medium''"
    by (simp_all add: sample_def car_def)
  ultimately show ?thesis
    using range_by_segment_keeps_group [OF sample_audi, of "sample ! 3" "''JC - Medium''"]
      sample_audi by simp
qed


lemma exchanged_with_numbers_load:
  assumes "decimal_of_num conv 6 100 = Some 100" and "decimal_of_num conv 6 180 = Some 180"
  shows "load_csv conv exchanged_with_numbers (clear_all_data tbl) = Inr (1, null_brand)"
  using assms
  by (simp add: exchanged_with_numbers_def null_brand_def load_csv_def
      to_numeric_columns_def numeric_columns_def required_columns_def schema_columns_def
      map_column_def dropna_def notna_def insert_select_def store_row_def cells_def car_def
      clear_all_data_def)

lemma null_brand_query: "query_with_filters null_brand [] = Inr null_brand"
  by (simp add: engine_defs)

text \<open>
  C7, as the claim states it, fails. The table \<open>null_brand\<close> is what the program stores
  for the file \<open>exchanged_with_numbers\<close> (\<open>exchanged_with_numbers_load\<close>). Its row has
  both \<open>battery_capacity_kWh\<close> and \<open>efficiency_wh_per_km\<close>, and the query returns no
  row for it, because \<^verbatim>\<open>.dropna()\<close> also looks at the brand.
\<close>

theorem battery_vs_efficiency_counterexample:
  "query_with_filters null_brand [] = Inr null_brand
   \<and> map battery_capacity_kWh null_brand = [Some 100]
   \<and> map efficiency_wh_per_km null_brand = [Some 180]
   \<and> calculate_kpi_3_battery_vs_efficiency null_brand []
       = Inr \<lparr>scatter_columns =
                 [''battery_capacity_kWh'', ''efficiency_wh_per_km'', ''segment'', ''brand'',
                  ''model''],
               scatter_rows = []\<rparr>"
  by (simp add: calculate_kpi_3_battery_vs_efficiency_def null_brand_query)
    (simp add: null_brand_def car_def select_columns_def)

text \<open>
  C7, amended. Whenever the filtered query returns rows, the battery-vs-efficiency query
  returns, without aggregation and in their order, the five values
  (\<open>battery_capacity_kWh\<close>, \<open>efficiency_wh_per_km\<close>, \<open>segment\<close>, \<open>brand\<close>, \<open>model\<close>) of
  exactly the filtered rows in which all five are present, one row for each; when there is
  a filtered row, the table has these five columns. For filtered rows that all have the
  four required fields, these are the rows in which the two numeric fields are present.
\<close>

theorem battery_vs_efficiency_rows:
  assumes "query_with_filters tbl filters = Inr df"
  shows "\<exists>result. calculate_kpi_3_battery_vs_efficiency tbl filters = Inr result
           \<and> scatter_rows result
               = map (\<lambda>row. (battery_capacity_kWh row, efficiency_wh_per_km row, segment row,
                              brand row, model row))
                   (filter (\<lambda>row. battery_capacity_kWh row \<noteq> None
                                  \<and> efficiency_wh_per_km row \<noteq> None
                                  \<and> segment row \<noteq> None \<and> brand row \<noteq> None
                                  \<and> model row \<noteq> None) df)
           \<and> (df \<noteq> [] \<longrightarrow>
                 scatter_columns result
                 = [''battery_capacity_kWh'', ''efficiency_wh_per_km'', ''segment'', ''brand'',
                    ''model''])
           \<and> (list_all required_present df \<longrightarrow>
                 scatter_rows result
                 = map (\<lambda>row. (battery_capacity_kWh row, efficiency_wh_per_km row, segment row,
                                brand row, model row))
                     (filter (\<lambda>row. battery_capacity_kWh row \<noteq> None
                                    \<and> efficiency_wh_per_km row \<noteq> None) df))"
proof -
  let ?five = "\<lambda>row. (battery_capacity_kWh row, efficiency_wh_per_km row, segment row,
                       brand row, model row)"
  have rows: "filter complete (map select_columns df)
        = map ?five
            (filter (\<lambda>row. battery_capacity_kWh row \<noteq> None \<and> efficiency_wh_per_km row \<noteq> None
                           \<and> segment row \<noteq> None \<and> brand row \<noteq> None \<and> model row \<noteq> None) df)"
    by (induction df) (auto simp: select_columns_def)
  have req: "filter (\<lambda>row. battery_capacity_kWh row \<noteq> None \<and> efficiency_wh_per_km row \<noteq> None
                           \<and> segment row \<noteq> None \<and> brand row \<noteq> None \<and> model row \<noteq> None) df
        = filter (\<lambda>row. battery_capacity_kWh row \<noteq> None \<and> efficiency_wh_per_km row \<noteq> None) df"
    if "list_all required_present df"
    using that by (induction df) (auto simp: required_present_def)
  show ?thesis
  proof (cases "df = []")
    case True
    with assms show ?thesis
      by (simp add: calculate_kpi_3_battery_vs_efficiency_def)
  next
    case False
    with assms have "calculate_kpi_3_battery_vs_efficiency tbl filters
        = Inr \<lparr>scatter_columns =
                  [''battery_capacity_kWh'', ''efficiency_wh_per_km'', ''segment'', ''brand'',
                   ''model''],
                scatter_rows = filter complete (map select_columns df)\<rparr>"
      by (simp add: calculate_kpi_3_battery_vs_efficiency_def)
    with rows req show ?thesis by auto
  qed
qed

theorem battery_vs_efficiency_rows_witness:
  "query_with_filters sample [(''car_body_type'', [''SUV''])] = Inr [sample ! 1, sample ! 3]
   \<and> calculate_kpi_3_battery_vs_efficiency sample [(''car_body_type'', [''SUV''])]
       = Inr \<lparr>scatter_columns =
                 [''battery_capacity_kWh'', ''efficiency_wh_per_km'', ''segment'', ''brand'',
                  ''model''],
               scatter_rows =
                 [(Some 75, Some 160, Some ''JC - Medium'', Some ''Tesla'', Some ''Model Y'')]\<rparr>"
proof -
  from battery_vs_efficiency_rows [OF sample_suv] obtain result where
    run: "calculate_kpi_3_battery_vs_efficiency sample [(''car_body_type'', [''SUV''])] = Inr result"
    and rows: "scatter_rows result
               = map (\<lambda>row. (battery_capacity_kWh row, efficiency_wh_per_km row, segment row,
                              brand row, model row))
                   (filter (\<lambda>row. battery_capacity_kWh row \<noteq> None
                                  \<and> efficiency_wh_per_km row \<noteq> None
                                  \<and> segment row \<noteq> None \<and> brand row \<noteq> None
                                  \<and> model row \<noteq> None) [sample ! 1, sample ! 3])"
    and cols: "[sample ! 1, sample ! 3] \<noteq> [] \<longrightarrow>
                 scatter_columns result
                 = [''battery_capacity_kWh'', ''efficiency_wh_per_km'', ''segment'', ''brand'',
                    ''model'']"
    by blast
  from rows have "scatter_rows result
      = [(Some 75, Some 160, Some ''JC - Medium'', Some ''Tesla'', Some ''Model Y'')]"
    by (simp add: sample_def car_def del: not_None_eq)
  with cols have "result
      = \<lparr>scatter_columns =
            [''battery_capacity_kWh'', ''efficiency_wh_per_km'', ''segment'', ''brand'',
             ''model''],
          scatter_rows =
            [(Some 75, Some 160, Some ''JC - Medium'', Some ''Tesla'', Some ''Model Y'')]\<rparr>"
    by simp
  with run sample_suv show ?thesis by simp
qed

lemma queries_on_no_rows:
  assumes "query_with_filters tbl filters = Inr []"
  shows "calculate_kpi_1_range_by_segment tbl filters = Inr []
       \<and> calculate_kpi_2_acceleration_by_brand tbl filters = Inr []
       \<and> calculate_kpi_3_battery_vs_efficiency tbl filters
           = Inr \<lparr>scatter_columns = [''battery_capacity_kWh'', ''efficiency_wh_per_km'', ''segment''],
                   scatter_rows = []\<rparr>
       \<and> calculate_kpi_4_distribution_by_body_type tbl filters = Inr []"
  using assms
  by (simp add: calculate_kpi_1_range_by_segment_def calculate_kpi_2_acceleration_by_brand_def
      calculate_kpi_3_battery_vs_efficiency_def calculate_kpi_4_distribution_by_body_type_def)

lemma queries_on_no_match:
  assumes "\<forall>entry\<in>set filters. well_formed entry"
    and "\<forall>row\<in>set tbl. \<exists>(column, vs)\<in>set filters.
           vs \<noteq> [] \<and> text_value column row \<notin> Some ` set vs"
  shows "calculate_kpi_1_range_by_segment tbl filters = Inr []
       \<and> calculate_kpi_2_acceleration_by_brand tbl filters = Inr []
       \<and> calculate_kpi_3_battery_vs_efficiency tbl filters
           = Inr \<lparr>scatter_columns = [''battery_capacity_kWh'', ''efficiency_wh_per_km'', ''segment''],
                   scatter_rows = []\<rparr>
       \<and> calculate_kpi_4_distribution_by_body_type tbl filters = Inr []"
proof (rule queries_on_no_rows)
  have "\<not> (\<forall>(column, vs)\<in>set filters.
                vs \<noteq> [] \<longrightarrow> text_value column row \<in> Some ` set vs)"
    if "row \<in> set tbl" for row
  proof -
    from assms(2) that obtain column vs where "(column, vs) \<in> set filters"
      "vs \<noteq> []" "text_value column row \<notin> Some ` set vs"
      by blast
    then show ?thesis by blast
  qed
  then have "filter (\<lambda>row. \<forall>(column, vs)\<in>set filters.
                        vs \<noteq> [] \<longrightarrow> text_value column row \<in> Some ` set vs) tbl = []"
    unfolding filter_empty_conv by blast
  with query_with_filters_members [OF assms(1), of tbl]
  show "query_with_filters tbl filters = Inr []" by simp
qed

text \<open>
  C8. The claim promises an empty table and no error from each of the four queries for
  every filter set that matches no stored row. \<open>queries_on_no_match\<close> shows that the code
  does this when no value contains a single quote. With a quote it does not: no vehicle
  of the fixture has the brand \<open>Non'Existent\<close>, and for this filter each of the four
  queries raises the engine's parser error, since \<open>query_with_filters\<close> raises it before
  the test for an empty frame.
\<close>

theorem queries_raise_on_quote:
  "list_all (\<lambda>row. brand row \<noteq> Some ''Non'Existent'') sample
   \<and> calculate_kpi_1_range_by_segment sample [(''brand'', [''Non'Existent''])] = Inl ParserError
   \<and> calculate_kpi_2_acceleration_by_brand sample [(''brand'', [''Non'Existent''])]
       = Inl ParserError
   \<and> calculate_kpi_3_battery_vs_efficiency sample [(''brand'', [''Non'Existent''])]
       = Inl ParserError
   \<and> calculate_kpi_4_distribution_by_body_type sample [(''brand'', [''Non'Existent''])]
       = Inl ParserError"
proof -
  have "query_with_filters sample [(''brand'', [''Non'Existent''])] = Inl ParserError"
    by (simp add: query_with_filters_def execute_select_def build_query_def quote_def
        start_def word_char_def blank_def)
  moreover have "list_all (\<lambda>row. brand row \<noteq> Some ''Non'Existent'') sample"
    by (simp add: sample_def car_def)
  ultimately show ?thesis
    by (simp add: calculate_kpi_1_range_by_segment_def calculate_kpi_2_acceleration_by_brand_def
        calculate_kpi_3_battery_vs_efficiency_def calculate_kpi_4_distribution_by_body_type_def)
qed

section \<open>Properties of the body-type distribution\<close>

lemma value_counts_keys:
  "set (map fst (value_counts col)) = {v. Some v \<in> set col}"
  by (auto simp: value_counts_def set_sort_values set_map_filter image_iff)

lemma value_counts_distinct: "distinct (map fst (value_counts col))"
  by (simp add: value_counts_def distinct_map_sort_values comp_def)

lemma value_counts_rows:
  "(v, n) \<in> set (value_counts col) \<Longrightarrow> n = count_list col (Some v)"
  by (auto simp: value_counts_def set_sort_values)

lemma count_list_present:
  "count_list col (Some v) = count_list (List.map_filter id col) v"
  by (induction col) (auto simp: List.map_filter_simps split: option.splits)

lemma sum_count_remdups: "sum_list (map (count_list xs) (remdups xs)) = length xs"
proof -
  have "sum_list (map (count_list xs) (remdups xs)) = sum (count_list xs) (set (remdups xs))"
    by (rule sum_list_distinct_conv_sum_set) simp
  also have "\<dots> = length xs"
    by (simp add: sum_count_set)
  finally show ?thesis .
qed

lemma value_counts_total:
  "sum_list (map snd (value_counts col)) = length (List.map_filter id col)"
proof -
  have "sum_list (map snd (value_counts col))
        = sum_list (map (\<lambda>v. count_list col (Some v)) (remdups (List.map_filter id col)))"
    by (simp add: value_counts_def sum_list_sort_values comp_def)
  also have "\<dots> = sum_list (map (count_list (List.map_filter id col)) (remdups (List.map_filter id col)))"
    by (simp add: count_list_present)
  finally show ?thesis by (simp add: sum_count_remdups)
qed

lemma length_map_filter_id:
  "length (List.map_filter id (map f xs)) = length (filter (\<lambda>x. f x \<noteq> None) xs)"
  by (induction xs) (auto simp: List.map_filter_simps split: option.splits)

lemma count_list_map:
  "count_list (map f xs) y = length (filter (\<lambda>x. f x = y) xs)"
  by (induction xs) auto

text \<open>Binary64 at work: the nearest floating-point numbers to \<open>0.1\<close> and to \<open>16.67\<close>,
  and two percentages whose exact value lies halfway between two hundredths.\<close>

lemma float64_tenth: "float64 (1 / 10) = 3602879701896397 / 36028797018963968"
  by code_simp

lemma float64_16_67: "float64 (1667 / 100) = 1173046965441659 / 70368744177664"
  by code_simp

lemma percentage_93_of_160: "percentage 93 160 = float64 (5813 / 100)"
  by code_simp

lemma percentage_23_of_160: "percentage 23 160 = float64 (1437 / 100)"
  by code_simp

lemma percentage_sixth: "percentage 1 6 = 1173046965441659 / 70368744177664"
  by code_simp

lemma distribution_by_body_type_counts:
  assumes "query_with_filters tbl filters = Inr df"
    and "df \<noteq> []"
  shows "\<exists>result. calculate_kpi_4_distribution_by_body_type tbl filters = Inr result
           \<and> distinct (map fst result)
           \<and> set (map fst result) = {body. \<exists>row\<in>set df. car_body_type row = Some body}
           \<and> (\<forall>(body, n, pct)\<in>set result.
                 n = length (filter (\<lambda>row. car_body_type row = Some body) df)
                 \<and> pct = percentage n (length (filter (\<lambda>row. car_body_type row \<noteq> None) df)))
           \<and> sorted_wrt (\<lambda>a b. fst (snd b) \<le> fst (snd a)) result"
proof -
  let ?col = "map car_body_type df"
  let ?counts = "value_counts ?col"
  let ?total = "length (filter (\<lambda>row. car_body_type row \<noteq> None) df)"
  let ?row = "\<lambda>(body, n). (body, n, percentage n ?total)"
  let ?le = "\<lambda>a b :: string \<times> nat \<times> rat. fst (snd b) \<le> fst (snd a)"
  let ?result = "sort_values ?le (map ?row ?counts)"
  have total: "sum_list (map snd ?counts) = ?total"
    by (simp add: value_counts_total length_map_filter_id)
  have run: "calculate_kpi_4_distribution_by_body_type tbl filters = Inr ?result"
    using assms by (simp add: calculate_kpi_4_distribution_by_body_type_def total)
  have fst_row: "map fst (map ?row ?counts) = map fst ?counts"
    by (simp add: comp_def case_prod_beta)
  have d: "distinct (map fst ?result)"
    using value_counts_distinct [of ?col] by (simp only: distinct_map_sort_values fst_row)
  have "set (map fst ?result) = set (map fst (map ?row ?counts))"
    by (simp only: set_map set_sort_values)
  also have "\<dots> = {body. Some body \<in> set ?col}"
    by (simp only: fst_row value_counts_keys)
  also have "\<dots> = {body. \<exists>row\<in>set df. car_body_type row = Some body}"
    by (force simp: image_iff)
  finally have k: "set (map fst ?result) = {body. \<exists>row\<in>set df. car_body_type row = Some body}" .
  have r: "\<forall>(body, n, pct)\<in>set ?result.
             n = length (filter (\<lambda>row. car_body_type row = Some body) df)
             \<and> pct = percentage n ?total"
    by (auto simp: set_sort_values count_list_map dest!: value_counts_rows)
  have s: "sorted_wrt ?le ?result"
    by (rule sorted_sort_values) auto
  from run d k r s show ?thesis by blast
qed

lemma six_body_types_query: "query_with_filters six_body_types [] = Inr six_body_types"
  by (simp add: engine_defs)

lemma six_body_types_counts:
  "value_counts (map car_body_type six_body_types)
   = [(''Sedan'', 1), (''SUV'', 1), (''Hatchback'', 1),
      (''Coupe'', 1), (''Station'', 1), (''Cabriolet'', 1)]"
  by (simp add: six_body_types_def car_def value_counts_def sort_values_def
      List.map_filter_simps)

text \<open>
  C1. The claim, and the repository's own test of this query
  (\<^verbatim>\<open>abs(total_percentage - 100.0) < 0.01\<close>), promise that the percentages add up to
  100 within 0.01. With six body types of one vehicle each the code reports, for each,
  the floating-point number nearest to 16.67; six of them make 100.02, and no order of
  adding them comes back within 0.01 of 100.
\<close>

theorem distribution_percentages_off:
  "query_with_filters six_body_types [] = Inr six_body_types
   \<and> calculate_kpi_4_distribution_by_body_type six_body_types []
       = Inr (map (\<lambda>body. (body, 1, float64 (1667 / 100)))
                [''Sedan'', ''SUV'', ''Hatchback'', ''Coupe'', ''Station'', ''Cabriolet''])
   \<and> (case calculate_kpi_4_distribution_by_body_type six_body_types [] of
         Inl e \<Rightarrow> False
       | Inr result \<Rightarrow> 100 + 2 / 100 \<le> sum_list (map (\<lambda>(body, n, pct). pct) result))"
proof -
  have ne: "six_body_types \<noteq> []" by (simp add: six_body_types_def)
  have pct: "percentage (Suc 0) (Suc (Suc (Suc (Suc (Suc (Suc 0)))))) = float64 (1667 / 100)"
    using percentage_sixth by (simp add: eval_nat_numeral float64_16_67)
  have run: "calculate_kpi_4_distribution_by_body_type six_body_types []
       = Inr (map (\<lambda>body. (body, 1, float64 (1667 / 100)))
                [''Sedan'', ''SUV'', ''Hatchback'', ''Coupe'', ''Station'', ''Cabriolet''])"
    using ne
    by (simp add: calculate_kpi_4_distribution_by_body_type_def six_body_types_query
        six_body_types_counts pct sort_values_def)
  show ?thesis
    by (simp add: six_body_types_query run float64_16_67)
qed

section \<open>Properties of loading\<close>

lemma map_of_zip_map2:
  "map_of (zip cols (map2 F cols row)) n = map_option (F n) (map_of (zip cols row) n)"
proof (induction cols arbitrary: row)
  case Nil
  then show ?case by simp
next
  case (Cons c cols)
  then show ?case by (cases row) auto
qed

lemma convert_columns_keeps:
  assumes "\<forall>n\<in>names. n \<notin> set cs"
  shows "\<exists>h. foldl (\<lambda>d col. if col \<in> set (df_columns d) then map_column col f d else d) d cs
             = d\<lparr>df_rows := map h (df_rows d)\<rparr>
           \<and> (\<forall>row. \<forall>n\<in>names. map_of (zip (df_columns d) (h row)) n
                                  = map_of (zip (df_columns d) row) n)"
  using assms
proof (induction cs arbitrary: d)
  case Nil
  have "d = d\<lparr>df_rows := map (\<lambda>row. row) (df_rows d)\<rparr>" by simp
  then show ?case by (intro exI [of _ "\<lambda>row. row"]) simp
next
  case (Cons col cs)
  let ?g = "\<lambda>row. map2 (\<lambda>name c. if name = col then f c else c) (df_columns d) row"
  let ?d = "if col \<in> set (df_columns d) then map_column col f d else d"
  from Cons.prems have names: "\<forall>n\<in>names. n \<notin> set cs" and col: "\<forall>n\<in>names. n \<noteq> col" by auto
  from Cons.IH [OF names, of ?d] obtain h where
    h: "foldl (\<lambda>d col. if col \<in> set (df_columns d) then map_column col f d else d) ?d cs
          = ?d\<lparr>df_rows := map h (df_rows ?d)\<rparr>"
       "\<forall>row. \<forall>n\<in>names. map_of (zip (df_columns ?d) (h row)) n = map_of (zip (df_columns ?d) row) n"
    by blast
  have cols: "df_columns ?d = df_columns d" by (simp add: map_column_def)
  show ?case
  proof (cases "col \<in> set (df_columns d)")
    case True
    have keep: "\<forall>row. \<forall>n\<in>names. map_of (zip (df_columns d) (?g row)) n
                 = map_of (zip (df_columns d) row) n"
      using col by (auto simp: map_of_zip_map2 option.map_ident cong: map_option_cong)
    have "foldl (\<lambda>d col. if col \<in> set (df_columns d) then map_column col f d else d) d (col # cs)
          = d\<lparr>df_rows := map (h \<circ> ?g) (df_rows d)\<rparr>"
      using h(1) True by (simp add: map_column_def)
    moreover have "\<forall>row. \<forall>n\<in>names. map_of (zip (df_columns d) ((h \<circ> ?g) row)) n
                 = map_of (zip (df_columns d) row) n"
      using h(2) keep cols by simp
    ultimately show ?thesis by blast
  next
    case False
    with h cols show ?thesis by auto
  qed
qed


lemma required_not_numeric: "\<forall>n\<in>set required_columns. n \<notin> set numeric_columns"
  by (simp add: required_columns_def numeric_columns_def)

lemma to_numeric_columns_rows:
  "\<exists>h. to_numeric_columns conv df = df\<lparr>df_rows := map h (df_rows df)\<rparr>
       \<and> (\<forall>row. \<forall>n\<in>set required_columns. notna (df_columns df) (h row) n
                                               = notna (df_columns df) row n)"
proof -
  from convert_columns_keeps [OF required_not_numeric, of "to_numeric conv" df]
  obtain h where h: "to_numeric_columns conv df = df\<lparr>df_rows := map h (df_rows df)\<rparr>"
    "\<forall>row. \<forall>n\<in>set required_columns. map_of (zip (df_columns df) (h row)) n
                                  = map_of (zip (df_columns df) row) n"
    unfolding to_numeric_columns_def by blast
  from h(2) have "\<forall>row. \<forall>n\<in>set required_columns. notna (df_columns df) (h row) n
                                               = notna (df_columns df) row n"
    by (simp add: notna_def)
  with h(1) show ?thesis by blast
qed

lemma prepared_rows:
  "\<exists>h. df_columns (to_numeric_columns conv df) = df_columns df
       \<and> df_rows (dropna required_columns (to_numeric_columns conv df))
           = map h (complete_rows df)"
proof -
  from to_numeric_columns_rows [of conv df] obtain h where
    h: "to_numeric_columns conv df = df\<lparr>df_rows := map h (df_rows df)\<rparr>"
       "\<forall>row. \<forall>n\<in>set required_columns. notna (df_columns df) (h row) n
                                        = notna (df_columns df) row n"
    by blast
  from h(2) have same: "list_all (notna (df_columns df) (h row)) required_columns
                        = list_all (notna (df_columns df) row) required_columns" for row
    by (simp add: list_all_iff)
  have "df_rows (dropna required_columns (to_numeric_columns conv df))
        = map h (complete_rows df)"
    by (simp add: h(1) dropna_def complete_rows_def filter_map comp_def same)
  moreover have "df_columns (to_numeric_columns conv df) = df_columns df"
    by (simp add: h(1))
  ultimately show ?thesis by blast
qed

lemma to_numeric_idem: "to_numeric conv (to_numeric conv c) = to_numeric conv c"
  by (cases c) (auto split: option.splits)

lemma map2_keep: "length row \<le> length cols \<Longrightarrow> map2 (\<lambda>name c. c) cols row = row"
proof (induction cols arbitrary: row)
  case Nil
  then show ?case by simp
next
  case (Cons c cols)
  then show ?case by (cases row) auto
qed

lemma map2_map2:
  "map2 F cols (map2 G cols row) = map2 (\<lambda>name c. F name (G name c)) cols row"
proof (induction cols arbitrary: row)
  case Nil
  then show ?case by simp
next
  case (Cons c cols)
  then show ?case by (cases row) auto
qed

lemma map2_cong_names:
  "\<forall>name\<in>set cols. \<forall>c. F name c = G name c \<Longrightarrow> map2 F cols row = map2 G cols row"
proof (induction cols arbitrary: row)
  case Nil
  then show ?case by simp
next
  case (Cons c cols)
  then show ?case by (cases row) auto
qed

lemma convert_columns_closed:
  assumes idem: "\<And>c. f (f c) = f c"
    and rect: "\<forall>row\<in>set (df_rows d). length row = length (df_columns d)"
  shows "foldl (\<lambda>d col. if col \<in> set (df_columns d) then map_column col f d else d) d cs
         = d\<lparr>df_rows :=
               map (\<lambda>row. map2 (\<lambda>name c. if name \<in> set cs then f c else c) (df_columns d) row)
                 (df_rows d)\<rparr>"
  using rect
proof (induction cs arbitrary: d)
  case Nil
  then have "map (\<lambda>row. map2 (\<lambda>name c. c) (df_columns d) row) (df_rows d) = df_rows d"
    by (intro map_idI map2_keep) simp
  then show ?case by simp
next
  case (Cons col cs)
  let ?cols = "df_columns d"
  let ?g = "\<lambda>row. map2 (\<lambda>name c. if name = col then f c else c) ?cols row"
  let ?d = "if col \<in> set ?cols then map_column col f d else d"
  have step: "?d = d\<lparr>df_rows := map ?g (df_rows d)\<rparr>"
  proof (cases "col \<in> set ?cols")
    case True
    then show ?thesis by (simp add: map_column_def)
  next
    case False
    have "?g row = row" if "row \<in> set (df_rows d)" for row
    proof -
      have "?g row = map2 (\<lambda>name c. c) ?cols row"
        using False by (intro map2_cong_names) auto
      also have "\<dots> = row"
        using Cons.prems that by (intro map2_keep) simp
      finally show ?thesis .
    qed
    then have "map ?g (df_rows d) = df_rows d"
      by (intro map_idI)
    with False show ?thesis by simp
  qed
  have rect': "\<forall>row\<in>set (df_rows ?d). length row = length (df_columns ?d)"
    using Cons.prems by (auto simp: step)
  have "foldl (\<lambda>d col. if col \<in> set (df_columns d) then map_column col f d else d) d (col # cs)
        = foldl (\<lambda>d col. if col \<in> set (df_columns d) then map_column col f d else d) ?d cs"
    by simp
  also have "\<dots> = ?d\<lparr>df_rows :=
               map (\<lambda>row. map2 (\<lambda>name c. if name \<in> set cs then f c else c) (df_columns ?d) row)
                 (df_rows ?d)\<rparr>"
    by (rule Cons.IH [OF rect'])
  also have "\<dots> = d\<lparr>df_rows :=
               map (\<lambda>row. map2 (\<lambda>name c. if name \<in> set (col # cs) then f c else c) ?cols row)
                 (df_rows d)\<rparr>"
  proof -
    have "map2 (\<lambda>name c. if name \<in> set cs then f c else c) ?cols (?g row)
          = map2 (\<lambda>name c. if name \<in> set (col # cs) then f c else c) ?cols row" for row
      unfolding map2_map2 by (intro map2_cong_names) (auto simp: idem)
    then show ?thesis by (simp add: step comp_def)
  qed
  finally show ?case .
qed

lemma to_numeric_columns_closed:
  assumes "\<forall>row\<in>set (df_rows df). length row = length (df_columns df)"
  shows "to_numeric_columns conv df
         = df\<lparr>df_rows := map (coerce_row conv (df_columns df)) (df_rows df)\<rparr>"
proof -
  have "coerce_row conv (df_columns df)
        = (\<lambda>row. map2 (\<lambda>name c. if name \<in> set numeric_columns then to_numeric conv c else c)
                    (df_columns df) row)"
    by (simp add: coerce_row_def fun_eq_iff)
  with convert_columns_closed [of "to_numeric conv" df numeric_columns, OF to_numeric_idem assms]
  show ?thesis by (simp add: to_numeric_columns_def)
qed

lemma notna_coerce_row:
  "name \<notin> set numeric_columns \<Longrightarrow>
   notna cols (coerce_row conv cols row) name = notna cols row name"
  by (simp add: notna_def coerce_row_def map_of_zip_map2 option.map_ident
      cong: map_option_cong)

lemma prepared_rows_closed:
  assumes "\<forall>row\<in>set (df_rows df). length row = length (df_columns df)"
  shows "df_rows (dropna required_columns (to_numeric_columns conv df))
         = map (coerce_row conv (df_columns df)) (complete_rows df)"
proof -
  have "list_all (notna (df_columns df) (coerce_row conv (df_columns df) row)) required_columns
        = list_all (notna (df_columns df) row) required_columns" for row
    using required_not_numeric by (simp add: list_all_iff notna_coerce_row)
  then show ?thesis
    by (simp add: to_numeric_columns_closed [OF assms] dropna_def complete_rows_def filter_map
        comp_def)
qed

lemma as_varchar_total: "as_varchar conv c \<noteq> None"
  by (cases c) auto

lemma coerce_row_nth:
  assumes "length row = 22" and "i < 22"
  shows "coerce_row conv schema_columns row ! i
         = (if schema_columns ! i \<in> set numeric_columns then to_numeric conv (row ! i)
            else row ! i)"
  using assms by (simp add: coerce_row_def schema_columns_def)

lemma store_row_fits:
  assumes len: "length row = 22" and fits: "fits conv row"
  shows "store_row conv (coerce_row conv schema_columns row) \<noteq> None"
proof -
  have l: "length (coerce_row conv schema_columns row) = 22"
    using len by (simp add: coerce_row_def schema_columns_def)
  have n: "coerce_row conv schema_columns row ! 0 = row ! 0"
    "coerce_row conv schema_columns row ! 1 = row ! 1"
    "coerce_row conv schema_columns row ! 2 = to_numeric conv (row ! 2)"
    "coerce_row conv schema_columns row ! 3 = to_numeric conv (row ! 3)"
    "coerce_row conv schema_columns row ! 4 = row ! 4"
    "coerce_row conv schema_columns row ! 5 = to_numeric conv (row ! 5)"
    "coerce_row conv schema_columns row ! 6 = to_numeric conv (row ! 6)"
    "coerce_row conv schema_columns row ! 7 = to_numeric conv (row ! 7)"
    "coerce_row conv schema_columns row ! 8 = to_numeric conv (row ! 8)"
    "coerce_row conv schema_columns row ! 9 = to_numeric conv (row ! 9)"
    "coerce_row conv schema_columns row ! 10 = to_numeric conv (row ! 10)"
    "coerce_row conv schema_columns row ! 11 = row ! 11"
    "coerce_row conv schema_columns row ! 12 = to_numeric conv (row ! 12)"
    "coerce_row conv schema_columns row ! 13 = to_numeric conv (row ! 13)"
    "coerce_row conv schema_columns row ! 14 = to_numeric conv (row ! 14)"
    "coerce_row conv schema_columns row ! 15 = row ! 15"
    "coerce_row conv schema_columns row ! 16 = row ! 16"
    "coerce_row conv schema_columns row ! 17 = to_numeric conv (row ! 17)"
    "coerce_row conv schema_columns row ! 18 = to_numeric conv (row ! 18)"
    "coerce_row conv schema_columns row ! 19 = to_numeric conv (row ! 19)"
    "coerce_row conv schema_columns row ! 20 = row ! 20"
    "coerce_row conv schema_columns row ! 21 = row ! 21"
    using len by (simp_all add: coerce_row_nth) (simp_all add: schema_columns_def numeric_columns_def)
  from fits show ?thesis
    unfolding store_row_def fits_def
    by (simp only: l n bind_eq_None_conv as_varchar_total simp_thms if_False) simp
qed

lemma those_all_Some:
  "\<forall>x\<in>set xs. f x \<noteq> None \<Longrightarrow> \<exists>ys. those (map f xs) = Some ys \<and> length ys = length xs"
  by (induction xs) (auto split: option.splits)

lemmas load_defs =
  load_csv_def to_numeric_columns_def numeric_columns_def required_columns_def
  schema_columns_def map_column_def dropna_def notna_def insert_select_def store_row_def
  cells_def

lemma batch_load:
  "load_csv conv batch tbl
   = Inr (1, tbl @ [car ''Kia'' ''EV6'' ''JC - Medium'' ''SUV'' None None None None])"
  by (simp add: batch_def load_defs car_def)

lemma out_of_range_raises: "load_csv conv out_of_range tbl = Inl ConversionError"
  by (simp add: out_of_range_def load_defs)

text \<open>
  C3, as the claim states it, fails: \<open>load_csv\<close> does not return a number for every
  batch. The batch \<open>out_of_range\<close> has the header in the table's order and one row with
  the four required fields, so the claim promises the return value 1; but its top speed
  does not fit \<^verbatim>\<open>DECIMAL(6,2)\<close>, the engine raises a conversion error whatever the
  conversions are (\<open>out_of_range_raises\<close>), and the exception leaves \<open>load_csv\<close>.
\<close>

theorem load_csv_out_of_range:
  "df_columns out_of_range = schema_columns
   \<and> length (complete_rows out_of_range) = 1
   \<and> load_csv refuse_all out_of_range sample = Inl ConversionError"
proof -
  have "length (complete_rows out_of_range) = 1"
    by (simp add: complete_rows_def out_of_range_def required_columns_def schema_columns_def
        notna_def cells_def)
  then show ?thesis
    by (simp add: out_of_range_raises) (simp add: out_of_range_def)
qed

text \<open>
  C3, amended. For every batch with the header in the table's order (a rectangular frame
  of the table's 22 columns) in which the numbers of the rows that have all four required
  fields fit the types of their columns, \<open>load_csv\<close> returns exactly the number of rows in
  which \<open>brand\<close>, \<open>model\<close>, \<open>segment\<close> and \<open>car_body_type\<close> are all present, and the
  record count after the load is the count before plus that number; when that number is 0
  the table is as before.
\<close>

theorem load_csv_count:
  assumes "df_columns df = schema_columns"
    and "\<forall>row\<in>set (df_rows df). length row = 22"
    and "\<forall>row\<in>set (complete_rows df). fits conv row"
  shows "\<exists>tbl'. load_csv conv df tbl = Inr (length (complete_rows df), tbl')
           \<and> get_record_count tbl' = get_record_count tbl + length (complete_rows df)
           \<and> (complete_rows df = [] \<longrightarrow> tbl' = tbl)"
proof -
  let ?df = "dropna required_columns (to_numeric_columns conv df)"
  have rect: "\<forall>row\<in>set (df_rows df). length row = length (df_columns df)"
    using assms(1,2) by (simp add: schema_columns_def)
  have rows: "df_rows ?df = map (coerce_row conv schema_columns) (complete_rows df)"
    using prepared_rows_closed [OF rect, of conv] assms(1) by simp
  have cols1: "df_columns (to_numeric_columns conv df) = schema_columns"
    by (simp add: to_numeric_columns_closed [OF rect] assms(1))
  then have cols: "df_columns ?df = schema_columns"
    by (simp add: dropna_def)
  have header: "list_all (\<lambda>name. name \<in> set (df_columns (to_numeric_columns conv df)))
                  required_columns"
    by (simp add: cols1 required_columns_def schema_columns_def)
  have len: "length (df_rows ?df) = length (complete_rows df)"
    by (simp add: rows)
  have empty: "df_rows ?df = [] \<longleftrightarrow> complete_rows df = []"
    by (simp add: rows)
  have run: "load_csv conv df tbl
      = (if complete_rows df \<noteq> []
         then (case insert_select conv ?df tbl of
                 Inl e \<Rightarrow> Inl e
               | Inr tbl' \<Rightarrow> Inr (length (complete_rows df), tbl'))
         else Inr (0, tbl))"
    using header by (simp add: load_csv_def Let_def len empty split: sum.splits)
  have "store_row conv row \<noteq> None" if "row \<in> set (df_rows ?df)" for row
  proof -
    from that rows obtain r where r: "r \<in> set (complete_rows df)"
      and row: "row = coerce_row conv schema_columns r"
      by auto
    from r have "r \<in> set (df_rows df)" by (simp add: complete_rows_def)
    with assms(2) have "length r = 22" by simp
    moreover from r assms(3) have "fits conv r" by simp
    ultimately show ?thesis unfolding row by (rule store_row_fits)
  qed
  then have "\<forall>row\<in>set (df_rows ?df). store_row conv row \<noteq> None" by simp
  from those_all_Some [OF this] obtain new where
    new: "those (map (store_row conv) (df_rows ?df)) = Some new"
    and new_len: "length new = length (df_rows ?df)"
    by blast
  have ins: "insert_select conv ?df tbl = Inr (tbl @ new)"
    by (simp add: insert_select_def cols schema_columns_def new)
  show ?thesis
  proof (cases "complete_rows df = []")
    case True
    with run show ?thesis by (simp add: get_record_count_def)
  next
    case False
    with run ins have "load_csv conv df tbl = Inr (length (complete_rows df), tbl @ new)"
      by simp
    with False new_len len show ?thesis by (simp add: get_record_count_def)
  qed
qed

theorem load_csv_count_witness:
  "\<forall>conv. df_columns batch = schema_columns
     \<and> (\<forall>row\<in>set (df_rows batch). length row = 22)
     \<and> (\<forall>row\<in>set (complete_rows batch). fits conv row)
     \<and> length (complete_rows batch) = 1
     \<and> load_csv conv batch sample
         = Inr (1, sample @ [car ''Kia'' ''EV6'' ''JC - Medium'' ''SUV'' None None None None])
     \<and> (\<exists>tbl'. load_csv conv batch sample = Inr (length (complete_rows batch), tbl')
           \<and> get_record_count tbl' = get_record_count sample + length (complete_rows batch)
           \<and> (complete_rows batch = [] \<longrightarrow> tbl' = sample))"
proof
  fix conv
  have header: "df_columns batch = schema_columns"
    by (simp add: batch_def)
  have rect: "\<forall>row\<in>set (df_rows batch). length row = 22"
    by (simp add: batch_def cells_def)
  have complete: "complete_rows batch
      = [cells (Str ''Kia'') (Str ''EV6'') NaN (Str ''JC - Medium'') (Str ''SUV'')]"
    by (simp add: complete_rows_def batch_def required_columns_def schema_columns_def
        notna_def cells_def)
  have fit: "\<forall>row\<in>set (complete_rows batch). fits conv row"
    by (simp add: complete fits_def cells_def)
  have one: "length (complete_rows batch) = 1"
    by (simp add: complete)
  from load_csv_count [OF header rect fit, of sample] header rect fit one
    batch_load [of conv sample]
  show "df_columns batch = schema_columns
     \<and> (\<forall>row\<in>set (df_rows batch). length row = 22)
     \<and> (\<forall>row\<in>set (complete_rows batch). fits conv row)
     \<and> length (complete_rows batch) = 1
     \<and> load_csv conv batch sample
         = Inr (1, sample @ [car ''Kia'' ''EV6'' ''JC - Medium'' ''SUV'' None None None None])
     \<and> (\<exists>tbl'. load_csv conv batch sample = Inr (length (complete_rows batch), tbl')
           \<and> get_record_count tbl' = get_record_count sample + length (complete_rows batch)
           \<and> (complete_rows batch = [] \<longrightarrow> tbl' = sample))"
    by blast
qed

text \<open>
  C4. The claim promises that a value is stored under the field its header column names,
  whatever the order of the columns. The code binds by position: for the file whose
  header starts \<^verbatim>\<open>model,brand\<close>, the row with model \<open>EV6\<close> and brand \<open>Kia\<close> is stored
  with brand \<open>EV6\<close> and model \<open>Kia\<close>.
\<close>

theorem load_csv_by_position:
  "map_of (zip (df_columns model_first) (hd (df_rows model_first))) ''brand'' = Some (Str ''Kia'')
   \<and> map_of (zip (df_columns model_first) (hd (df_rows model_first))) ''model'' = Some (Str ''EV6'')
   \<and> load_csv conv model_first []
       = Inr (1, [car ''EV6'' ''Kia'' ''JC - Medium'' ''SUV'' None None None None])"
  by (simp add: model_first_def load_defs car_def)

lemma as_varchar_present:
  "as_varchar conv c = Some v \<Longrightarrow> c \<noteq> NaN \<Longrightarrow> v \<noteq> None"
  by (cases c) auto

lemma those_map_Some:
  "those (map f xs) = Some ys \<Longrightarrow> y \<in> set ys \<Longrightarrow> \<exists>x\<in>set xs. f x = Some y"
  by (induction xs arbitrary: ys) (auto split: option.splits)

lemma store_row_fields:
  assumes "store_row conv row = Some v"
  shows "length row = 22
       \<and> as_varchar conv (row ! 0) = Some (brand v)
       \<and> as_varchar conv (row ! 1) = Some (model v)
       \<and> as_varchar conv (row ! 16) = Some (segment v)
       \<and> as_varchar conv (row ! 20) = Some (car_body_type v)"
  using assms
  by (auto simp: store_row_def bind_eq_Some_conv split: if_splits)

lemma schema_cell:
  assumes "length row = 22" and "i < 22"
  shows "map_of (zip schema_columns row) (schema_columns ! i) = Some (row ! i)"
proof (rule map_of_zip_nth)
  show "length schema_columns = length row" using assms by (simp add: schema_columns_def)
  show "distinct schema_columns" by (simp add: schema_columns_def)
  show "i < length row" using assms by simp
qed

lemma store_row_required:
  assumes "store_row conv row = Some v"
    and "list_all (notna schema_columns row) required_columns"
  shows "required_present v"
proof -
  from store_row_fields [OF assms(1)] have len: "length row = 22"
    and f: "as_varchar conv (row ! 0) = Some (brand v)"
           "as_varchar conv (row ! 1) = Some (model v)"
           "as_varchar conv (row ! 16) = Some (segment v)"
           "as_varchar conv (row ! 20) = Some (car_body_type v)"
    by auto
  have c: "map_of (zip schema_columns row) ''brand'' = Some (row ! 0)"
          "map_of (zip schema_columns row) ''model'' = Some (row ! 1)"
          "map_of (zip schema_columns row) ''segment'' = Some (row ! 16)"
          "map_of (zip schema_columns row) ''car_body_type'' = Some (row ! 20)"
    using schema_cell [OF len, of 0] schema_cell [OF len, of 1]
      schema_cell [OF len, of 16] schema_cell [OF len, of 20]
    by (simp_all add: schema_columns_def)
  from assms(2) c have "row ! 0 \<noteq> NaN" "row ! 1 \<noteq> NaN" "row ! 16 \<noteq> NaN" "row ! 20 \<noteq> NaN"
    by (simp_all add: required_columns_def notna_def)
  with f show ?thesis
    by (auto simp: required_present_def dest: as_varchar_present)
qed

lemma load_csv_keeps_required:
  assumes "df_columns df = schema_columns"
    and "load_csv conv df tbl = Inr (n, tbl')"
    and "list_all required_present tbl"
  shows "list_all required_present tbl'"
proof -
  let ?df = "dropna required_columns (to_numeric_columns conv df)"
  from prepared_rows [of conv df] assms(1)
  have cols: "df_columns (to_numeric_columns conv df) = schema_columns" by auto
  have kept: "\<forall>row\<in>set (df_rows ?df). list_all (notna schema_columns row) required_columns"
    by (simp add: dropna_def cols)
  from assms(2) have "tbl' = tbl \<or> insert_select conv ?df tbl = Inr tbl'"
    by (auto simp: load_csv_def Let_def split: if_splits sum.splits)
  then show ?thesis
  proof
    assume "tbl' = tbl"
    with assms(3) show ?thesis by simp
  next
    assume "insert_select conv ?df tbl = Inr tbl'"
    then obtain new where new: "those (map (store_row conv) (df_rows ?df)) = Some new"
      and tbl': "tbl' = tbl @ new"
      by (auto simp: insert_select_def split: if_splits option.splits)
    have "required_present v" if "v \<in> set new" for v
    proof -
      from those_map_Some [OF new that] obtain row where
        "row \<in> set (df_rows ?df)" "store_row conv row = Some v" by blast
      with kept show ?thesis by (blast intro: store_row_required)
    qed
    with assms(3) tbl' show ?thesis by (auto simp: list_all_iff)
  qed
qed

text \<open>
  C6. The claim promises that no stored row lacks a required field.
  \<open>load_csv_keeps_required\<close> shows that a load keeps this when the header lists the
  columns in the table's order. For another order it does not: \<^verbatim>\<open>dropna\<close> checks the
  columns by name and the \<^verbatim>\<open>INSERT\<close> binds them by position, so from the emptied
  table the file with \<^verbatim>\<open>battery_type\<close> first and \<^verbatim>\<open>brand\<close> fifth stores its second
  row, whose battery type is empty, with a \<^verbatim>\<open>NULL\<close> brand.
\<close>

theorem load_csv_stores_null_brand:
  "list_all required_present (clear_all_data tbl)
   \<and> load_csv conv battery_type_first (clear_all_data tbl)
       = Inr (2, [(car ''Lithium-ion'' ''EV6'' ''JC - Medium'' ''SUV'' None None None None)
                    \<lparr>battery_type := Some ''Kia''\<rparr>,
                  (car ''Kia'' ''EV9'' ''JE - Executive'' ''SUV'' None None None None)
                    \<lparr>brand := None, battery_type := Some ''Kia''\<rparr>])
   \<and> \<not> required_present
         ((car ''Kia'' ''EV9'' ''JE - Executive'' ''SUV'' None None None None)
            \<lparr>brand := None, battery_type := Some ''Kia''\<rparr>)"
  by (simp add: battery_type_first_def load_defs car_def clear_all_data_def
      required_present_def)

end
